theory Spec2Isabelle
  imports Main "HOL-Library.AList"
begin

section \<open>Python string helpers\<close>

text \<open>
  Strings are byte strings restricted to ASCII: \<open>len\<close> is \<open>length\<close>, \<open>+\<close> is \<open>@\<close>.
  \<open>str_int\<close> is Python's \<open>str\<close> on an int (decimal, with a minus sign), used by
  every f-string that formats a step or round number.
\<close>

definition digit_char :: "nat \<Rightarrow> char" where
  "digit_char d = char_of (48 + d)"

function str_nat :: "nat \<Rightarrow> string" where
  "str_nat n = (if n < 10 then [digit_char n] else str_nat (n div 10) @ [digit_char (n mod 10)])"
  by pat_completeness auto
termination
  by (relation "measure id") auto

declare str_nat.simps [simp del]

definition str_int :: "int \<Rightarrow> string" where
  "str_int i = (if i < 0 then CHR ''-'' # str_nat (nat (- i)) else str_nat (nat i))"

text \<open>\<open>str\<close> of an \<open>Optional[str]\<close>: the text itself, or \<open>None\<close>.\<close>

definition str_opt :: "string option \<Rightarrow> string" where
  "str_opt x = (case x of None \<Rightarrow> ''None'' | Some s \<Rightarrow> s)"

definition newline :: string where
  "newline = [CHR 0x0A]"

text \<open>\<open>sep.join(lines)\<close>.\<close>

fun join :: "string \<Rightarrow> string list \<Rightarrow> string" where
  "join sep [] = []"
| "join sep [x] = x"
| "join sep (x # y # ys) = x @ sep @ join sep (y # ys)"

section \<open>The environment\<close>

text \<open>
  Everything outside the Python process is one record, passed in and returned updated:
  \<^item> \<open>clock\<close>: what \<open>datetime.now().isoformat()\<close> reads; every read advances it;
  \<^item> \<open>files\<close>: the JSON files of \<open>_bmad-output/.workflow-state/\<close>, by workflow name;
    a file holds a state dictionary or cannot be parsed;
  \<^item> \<open>writable\<close>: whether opening (or unlinking) the state file of a workflow name
    succeeds; where it does not, the source's \<open>except Exception\<close> branch runs;
  \<^item> \<open>workflows\<close>: what \<open>load_workflow\<close> finds (\<open>None\<close>: it raises
    \<open>WorkflowNotFoundError\<close>); parsing the definition files is outside the engine;
  \<^item> \<open>step_files\<close>: the text of a step file, by workflow path and file name;
  \<^item> \<open>output_files\<close>: the size of an existing output file, by path;
  \<^item> \<open>agent\<close>: the agent invocation boundary (\<open>create_client\<close> followed by
    \<open>run_agent_session\<close>): from all invocations made so far, the current one last,
    to its outcome, a raised exception or a status tag with the response text;
  \<^item> \<open>calls\<close>: the invocations made so far, each the agent type and the message;
  \<^item> \<open>events\<close>: the observer callbacks fired so far;
  \<^item> \<open>mkdir_error\<close>: for a directory of party mode that
    \<open>mkdir(parents=True, exist_ok=True)\<close> cannot create, the text of the
    \<open>OSError\<close> it raises.
  The directory that \<open>_execute_step\<close> creates for a workflow step is taken to exist.
\<close>

type_synonym timestamp = nat

record exec_state =
  status :: "string option"
  stepsCompleted :: "string list option"
  currentStep :: "int option"
  startedAt :: "timestamp option"
  completedAt :: "timestamp option"
  failedAt :: "timestamp option"
  lastUpdated :: "timestamp option"
  lastError :: "string option"
  failedAtStep :: "int option"

datatype state_file = Unreadable | Stored exec_state

datatype response = Raises string | Returns string string

record WorkflowStep =
  step_file :: string
  step_name :: string
  step_agent :: string

record output_def =
  od_path :: string
  od_description :: "string option"

record Workflow =
  wf_name :: string
  wf_path :: string
  wf_steps :: "WorkflowStep list"
  wf_outputs :: "output_def list"

record output_info =
  oi_exists :: bool
  oi_size :: nat
  oi_description :: string

type_synonym outputs = "(string \<times> output_info) list"

datatype event =
  OnStepStart int string
| OnStepComplete int "string option"
| OnWorkflowComplete outputs
| OnError string

record world =
  clock :: nat
  files :: "string \<Rightarrow> state_file option"
  writable :: "string \<Rightarrow> bool"
  workflows :: "string \<Rightarrow> Workflow option"
  step_files :: "string \<times> string \<Rightarrow> string option"
  output_files :: "string \<Rightarrow> nat option"
  agent :: "(string \<times> string) list \<Rightarrow> response"
  calls :: "(string \<times> string) list"
  events :: "event list"
  mkdir_error :: "string \<Rightarrow> string option"

definition now :: "world \<Rightarrow> timestamp \<times> world" where
  "now w = (clock w, w\<lparr>clock := Suc (clock w)\<rparr>)"

definition invoke :: "world \<Rightarrow> string \<Rightarrow> string \<Rightarrow> world \<times> response" where
  "invoke w agent_type message =
     (let cs = calls w @ [(agent_type, message)] in (w\<lparr>calls := cs\<rparr>, agent w cs))"

section \<open>WorkflowStateManager (bmad\_state.py)\<close>

definition default_state :: exec_state where
  "default_state =
     \<lparr>status = Some ''not_started'', stepsCompleted = Some [], currentStep = Some 0,
      startedAt = None, completedAt = None, failedAt = None, lastUpdated = None,
      lastError = None, failedAtStep = None\<rparr>"

definition get_state :: "world \<Rightarrow> string \<Rightarrow> exec_state" where
  "get_state w workflow_name =
     (case files w workflow_name of
        None \<Rightarrow> default_state
      | Some Unreadable \<Rightarrow> default_state
      | Some (Stored st) \<Rightarrow> st)"

definition save_state :: "world \<Rightarrow> string \<Rightarrow> exec_state \<Rightarrow> world \<times> bool" where
  "save_state w workflow_name st =
     (if writable w workflow_name
      then (w\<lparr>files := (files w)(workflow_name \<mapsto> Stored st)\<rparr>, True)
      else (w, False))"

text \<open>\<open>state.get("stepsCompleted", [])\<close>, also the list after "Initialize if needed".\<close>

definition completed_steps :: "exec_state \<Rightarrow> string list" where
  "completed_steps st = (case stepsCompleted st of None \<Rightarrow> [] | Some xs \<Rightarrow> xs)"

definition mark_step_complete :: "world \<Rightarrow> string \<Rightarrow> string \<Rightarrow> world \<times> bool" where
  "mark_step_complete w workflow_name step =
     (let st0 = get_state w workflow_name;
          done0 = completed_steps st0;
          done1 = (if step \<notin> set done0 then done0 @ [step] else done0);
          st1 = st0\<lparr>stepsCompleted := Some done1\<rparr>;
          (st2, w2) =
            (if status st1 = Some ''not_started''
             then (let (t, w1) = now w
                   in (st1\<lparr>status := Some ''in_progress'', startedAt := Some t\<rparr>, w1))
             else (st1, w));
          st3 = st2\<lparr>currentStep := Some (int (length done1))\<rparr>;
          (t, w3) = now w2;
          st4 = st3\<lparr>lastUpdated := Some t\<rparr>
      in save_state w3 workflow_name st4)"

definition mark_workflow_complete :: "world \<Rightarrow> string \<Rightarrow> world \<times> bool" where
  "mark_workflow_complete w workflow_name =
     (let st0 = get_state w workflow_name;
          st1 = st0\<lparr>status := Some ''completed''\<rparr>;
          (t1, w1) = now w;
          st2 = st1\<lparr>completedAt := Some t1\<rparr>;
          (t2, w2) = now w1;
          st3 = st2\<lparr>lastUpdated := Some t2\<rparr>
      in save_state w2 workflow_name st3)"

definition mark_workflow_failed ::
  "world \<Rightarrow> string \<Rightarrow> string \<Rightarrow> int option \<Rightarrow> world \<times> bool" where
  "mark_workflow_failed w workflow_name err step_num =
     (let st0 = get_state w workflow_name;
          st1 = st0\<lparr>status := Some ''failed'', lastError := Some err\<rparr>;
          st2 = (case step_num of None \<Rightarrow> st1 | Some n \<Rightarrow> st1\<lparr>failedAtStep := Some n\<rparr>);
          (t1, w1) = now w;
          st3 = st2\<lparr>failedAt := Some t1\<rparr>;
          (t2, w2) = now w1;
          st4 = st3\<lparr>lastUpdated := Some t2\<rparr>
      in save_state w2 workflow_name st4)"

definition reset_workflow :: "world \<Rightarrow> string \<Rightarrow> world \<times> bool" where
  "reset_workflow w workflow_name =
     (if files w workflow_name = None then (w, True)
      else if writable w workflow_name
      then (w\<lparr>files := (files w)(workflow_name := None)\<rparr>, True)
      else (w, False))"

definition get_resume_point :: "world \<Rightarrow> string \<Rightarrow> int option" where
  "get_resume_point w workflow_name =
     (let st = get_state w workflow_name
      in if status st = Some ''completed'' then None
         else Some (case currentStep st of None \<Rightarrow> 0 | Some n \<Rightarrow> n))"

definition can_resume :: "world \<Rightarrow> string \<Rightarrow> bool" where
  "can_resume w workflow_name = (status (get_state w workflow_name) = Some ''in_progress'')"

text \<open>\<open>currentStep == len(stepsCompleted)\<close> on a state dictionary.\<close>

definition step_count_ok :: "exec_state \<Rightarrow> bool" where
  "step_count_ok st =
     (case stepsCompleted st of
        None \<Rightarrow> False
      | Some xs \<Rightarrow> currentStep st = Some (int (length xs)))"


section \<open>WorkflowEngine (bmad\_engine.py)\<close>

record StepResult =
  sr_status :: string
  sr_output :: "string option"
  sr_error :: "string option"

record WorkflowResult =
  wr_status :: string
  wr_outputs :: "outputs option"
  wr_failed_step :: "int option"
  wr_error :: "string option"

text \<open>
  A callback fires only when its key is in the \<open>callbacks\<close> dictionary; the model
  records the call in \<open>events\<close>. The \<open>context\<close> dictionary only selects the
  directories, the model name and the verbosity handed to the agent boundary, and is
  left out.
\<close>

definition fire :: "string list \<Rightarrow> string \<Rightarrow> event \<Rightarrow> world \<Rightarrow> world" where
  "fire callbacks key ev w =
     (if key \<in> set callbacks then w\<lparr>events := events w @ [ev]\<rparr> else w)"

definition engine_agent_type :: "string \<Rightarrow> string" where
  "engine_agent_type a =
     (case map_of
        [(''pm'', ''planner''), (''dev'', ''coder''), (''tea'', ''qa_reviewer''),
         (''architect'', ''planner''), (''analyst'', ''planner''),
         (''ux-designer'', ''planner'')] a of
        None \<Rightarrow> ''coder''
      | Some t \<Rightarrow> t)"

definition initial_message :: "Workflow \<Rightarrow> WorkflowStep \<Rightarrow> string \<Rightarrow> string" where
  "initial_message workflow step step_content =
     ''You are executing a BMAD Method workflow step.'' @ newline @ newline @
     ''**Workflow:** '' @ wf_name workflow @ newline @
     ''**Step:** '' @ step_name step @ newline @
     ''**Your Role:** '' @ step_agent step @ newline @ newline @
     step_content @ newline @ newline @
     ''Please follow the instructions in the step carefully. This is a collaborative workflow - ask questions, gather user input, and work interactively to complete this step.''"

definition execute_step :: "Workflow \<Rightarrow> WorkflowStep \<Rightarrow> world \<Rightarrow> world \<times> StepResult" where
  "execute_step workflow step w =
     (case step_files w (wf_path workflow, step_file step) of
        None \<Rightarrow>
          (w, \<lparr>sr_status = ''failed'', sr_output = None,
               sr_error = Some (''Step file not found: '' @ step_file step)\<rparr>)
      | Some step_content \<Rightarrow>
          (case invoke w (engine_agent_type (step_agent step))
                  (initial_message workflow step step_content) of
             (w1, Returns st response_text) \<Rightarrow>
               (if st = ''complete'' \<or> st = ''continue''
                then (w1, \<lparr>sr_status = ''success'', sr_output = Some response_text,
                           sr_error = None\<rparr>)
                else (w1, \<lparr>sr_status = ''failed'', sr_output = Some response_text,
                           sr_error = Some (''Agent session ended with status: '' @ st)\<rparr>))
           | (w1, Raises e) \<Rightarrow>
               (w1, \<lparr>sr_status = ''failed'', sr_output = None,
                     sr_error = Some (''Error executing step: '' @ e)\<rparr>)))"

definition collect_outputs :: "Workflow \<Rightarrow> world \<Rightarrow> outputs" where
  "collect_outputs workflow w =
     foldl (\<lambda>acc od.
              case output_files w (od_path od) of
                None \<Rightarrow> acc
              | Some sz \<Rightarrow>
                  AList.update (od_path od)
                    \<lparr>oi_exists = True, oi_size = sz,
                     oi_description =
                       (case od_description od of None \<Rightarrow> [] | Some d \<Rightarrow> d)\<rparr> acc)
       [] (wf_outputs workflow)"

text \<open>
  The \<open>for\<close> loop of \<open>execute_workflow\<close> over \<open>workflow.steps[start_index:]\<close>:
  \<open>i\<close> is the index that \<open>enumerate\<close> gives the first remaining step. \<open>Inl\<close> is
  the early \<open>return\<close> of the failure branch, \<open>Inr\<close> the collected results.
  \<open>sm\<close> says whether the engine has a state manager.
\<close>

fun run_steps ::
  "bool \<Rightarrow> string \<Rightarrow> Workflow \<Rightarrow> string list \<Rightarrow> nat \<Rightarrow> WorkflowStep list \<Rightarrow>
   StepResult list \<Rightarrow> world \<Rightarrow> world \<times> (WorkflowResult + StepResult list)" where
  "run_steps sm workflow_name workflow callbacks i [] results w = (w, Inr results)"
| "run_steps sm workflow_name workflow callbacks i (step # rest) results w =
     (let step_num = int i + 1;
          w1 = fire callbacks ''on_step_start'' (OnStepStart step_num (step_name step)) w;
          (w2, step_result) = execute_step workflow step w1
      in if sr_status step_result = ''failed''
         then (let error_msg = ''Step '' @ str_int step_num @ '' failed: '' @
                               str_opt (sr_error step_result);
                   w3 = fire callbacks ''on_error'' (OnError error_msg) w2
               in (w3, Inl \<lparr>wr_status = ''failed'', wr_outputs = None,
                             wr_failed_step = Some step_num,
                             wr_error = sr_error step_result\<rparr>))
         else (let w3 = (if sm then fst (mark_step_complete w2 workflow_name (step_name step))
                         else w2);
                   w4 = fire callbacks ''on_step_complete''
                          (OnStepComplete step_num (sr_output step_result)) w3
               in run_steps sm workflow_name workflow callbacks (Suc i) rest
                    (results @ [step_result]) w4))"

definition not_found_message :: "string \<Rightarrow> string" where
  "not_found_message workflow_name =
     ''Workflow '' @ [CHR 0x27] @ workflow_name @ [CHR 0x27] @ '' not found''"

text \<open>The state dictionary \<open>{}\<close> that the engine uses when it has no state manager.\<close>

definition empty_state :: exec_state where
  "empty_state =
     \<lparr>status = None, stepsCompleted = None, currentStep = None, startedAt = None,
      completedAt = None, failedAt = None, lastUpdated = None, lastError = None,
      failedAtStep = None\<rparr>"

definition execute_workflow ::
  "bool \<Rightarrow> string \<Rightarrow> string list \<Rightarrow> world \<Rightarrow> world \<times> WorkflowResult" where
  "execute_workflow sm workflow_name callbacks w =
     (case workflows w workflow_name of
        None \<Rightarrow>
          (fire callbacks ''on_error'' (OnError (not_found_message workflow_name)) w,
           \<lparr>wr_status = ''failed'', wr_outputs = None, wr_failed_step = None,
            wr_error = Some (not_found_message workflow_name)\<rparr>)
      | Some workflow \<Rightarrow>
          (let state = (if sm then get_state w workflow_name else empty_state);
               start_index = length (completed_steps state)
           in case run_steps sm workflow_name workflow callbacks start_index
                     (drop start_index (wf_steps workflow)) [] w of
                (w1, Inl failed) \<Rightarrow> (w1, failed)
              | (w1, Inr results) \<Rightarrow>
                  (let w2 = (if sm then fst (mark_workflow_complete w1 workflow_name) else w1);
                       outs = collect_outputs workflow w2;
                       w3 = fire callbacks ''on_workflow_complete'' (OnWorkflowComplete outs) w2
                   in (w3, \<lparr>wr_status = ''success'', wr_outputs = Some outs,
                             wr_failed_step = None, wr_error = None\<rparr>))))"

section \<open>MultiAgentOrchestrator (multi\_agent\_orchestrator.py)\<close>

record AgentContribution =
  ac_agent_type :: string
  ac_agent_name :: string
  ac_round_num :: int
  ac_content :: string
  ac_timestamp :: timestamp

record PartyModeResult =
  pm_discussion_history :: "AgentContribution list"
  pm_synthesis :: string
  pm_status :: string

text \<open>\<open>AGENT_PERSONAS\<close>: the name and the role of each known agent type.\<close>

definition AGENT_PERSONAS :: "(string \<times> string \<times> string) list" where
  "AGENT_PERSONAS =
     [(''pm'', ''John'', ''Product Manager''),
      (''architect'', ''Winston'', ''Solutions Architect''),
      (''dev'', ''Amelia'', ''Developer''),
      (''tea'', ''Murat'', ''Test Engineer & Architect''),
      (''sm'', ''Sarah'', ''Scrum Master'')]"

text \<open>\<open>str.title()\<close> on ASCII: a letter after a letter is lowered, any other letter raised.\<close>

definition is_upper :: "char \<Rightarrow> bool" where
  "is_upper c = (let n = (of_char c :: nat) in 65 \<le> n \<and> n \<le> 90)"

definition is_lower :: "char \<Rightarrow> bool" where
  "is_lower c = (let n = (of_char c :: nat) in 97 \<le> n \<and> n \<le> 122)"

fun title_from :: "bool \<Rightarrow> string \<Rightarrow> string" where
  "title_from prev [] = []"
| "title_from prev (c # cs) =
     (if is_lower c
      then (if prev then c else char_of ((of_char c :: nat) - 32)) # title_from True cs
      else if is_upper c
      then (if prev then char_of ((of_char c :: nat) + 32) else c) # title_from True cs
      else c # title_from False cs)"

definition title :: "string \<Rightarrow> string" where
  "title s = title_from False s"

definition persona :: "string \<Rightarrow> string \<times> string" where
  "persona agent_type =
     (case map_of AGENT_PERSONAS agent_type of
        None \<Rightarrow> (title agent_type, agent_type)
      | Some p \<Rightarrow> p)"

text \<open>\<open>str.strip()\<close> on ASCII white space.\<close>

definition is_space :: "char \<Rightarrow> bool" where
  "is_space c = (let n = (of_char c :: nat) in (9 \<le> n \<and> n \<le> 13) \<or> (28 \<le> n \<and> n \<le> 32))"

definition strip :: "string \<Rightarrow> string" where
  "strip s = rev (dropWhile is_space (rev (dropWhile is_space s)))"

text \<open>\<open>history[-10:]\<close>: the whole list when it has fewer than ten entries.\<close>

definition last_10 :: "'a list \<Rightarrow> 'a list" where
  "last_10 history = drop (length history - 10) history"

definition render_contribution :: "AgentContribution \<Rightarrow> string" where
  "render_contribution contrib =
     ''[Round '' @ str_int (ac_round_num contrib) @ ''] '' @ ac_agent_name contrib @
     '' ('' @ ac_agent_type contrib @ ''): '' @ ac_content contrib"

definition context_lines :: "string \<Rightarrow> string \<Rightarrow> AgentContribution list \<Rightarrow> string list" where
  "context_lines agent_type topic history =
     (let (name, role) = persona agent_type
      in [''Discussion Topic: '' @ topic, []] @
         (if history \<noteq> []
          then [''Previous Discussion:''] @ map render_contribution (last_10 history) @ [[]]
          else []) @
         [''You are '' @ name @ '', the '' @ role @ ''. '' @
          ''Provide a brief, focused contribution (2-3 sentences) to this discussion from your perspective. '' @
          ''Be specific and add value based on your expertise.''])"

definition build_context :: "string \<Rightarrow> string \<Rightarrow> AgentContribution list \<Rightarrow> string" where
  "build_context agent_type topic history = join newline (context_lines agent_type topic history)"

definition party_agent_type :: "string \<Rightarrow> string" where
  "party_agent_type a =
     (case map_of
        [(''pm'', ''planner''), (''architect'', ''planner''), (''dev'', ''coder''),
         (''tea'', ''qa_reviewer''), (''sm'', ''planner'')] a of
        None \<Rightarrow> ''planner''
      | Some t \<Rightarrow> t)"

text \<open>
  The directories of party mode, under the project directory. \<open>exn\<close> is the exception
  that leaves a function of the orchestrator: the \<open>OSError\<close> of a \<open>mkdir\<close> outside
  every \<open>try\<close>.
\<close>

datatype exn = OSError string

definition party_mode_dir :: "string \<Rightarrow> string" where
  "party_mode_dir leaf = ''_bmad-output/.party-mode/'' @ leaf"

definition round_dir :: "int \<Rightarrow> string" where
  "round_dir round_num = party_mode_dir (''round-'' @ str_int round_num)"

text \<open>
  \<open>_get_agent_contribution\<close> creates the directory of the round before its \<open>try\<close>:
  an \<open>OSError\<close> there leaves the function (\<open>Inl\<close>), with no invocation made and no
  contribution built. What \<open>create_client\<close> and \<open>run_agent_session\<close> raise is caught
  and becomes the placeholder contribution.
\<close>

definition get_agent_contribution ::
  "string \<Rightarrow> string \<Rightarrow> AgentContribution list \<Rightarrow> int \<Rightarrow> world \<Rightarrow>
   world \<times> (exn + AgentContribution)" where
  "get_agent_contribution agent_type topic history round_num w =
     (let (name, role) = persona agent_type;
          context = build_context agent_type topic history
      in case mkdir_error w (round_dir round_num) of
           Some msg \<Rightarrow> (w, Inl (OSError msg))
         | None \<Rightarrow>
             (case invoke w (party_agent_type agent_type) context of
                (w1, Returns st response_text) \<Rightarrow>
                  (let content0 = strip response_text;
                       content = (if length content0 > 500 then take 497 content0 @ ''...''
                                  else content0);
                       (t, w2) = now w1
                   in (w2, Inr \<lparr>ac_agent_type = agent_type, ac_agent_name = name,
                                ac_round_num = round_num, ac_content = content,
                                ac_timestamp = t\<rparr>))
              | (w1, Raises e) \<Rightarrow>
                  (let content = name @ '' ('' @ role @ ''): Unable to contribute (error: '' @
                                 e @ '')'';
                       (t, w2) = now w1
                   in (w2, Inr \<lparr>ac_agent_type = agent_type, ac_agent_name = name,
                                ac_round_num = round_num, ac_content = content,
                                ac_timestamp = t\<rparr>))))"

text \<open>
  \<open>_run_round_robin\<close> appends each contribution to \<open>contributions\<close> and to
  \<open>history\<close>. \<open>history\<close> is the caller's list object, so the model returns both: the
  caller's list as the loop leaves it, and the list the function returns. An exception
  of \<open>_get_agent_contribution\<close> leaves the loop.
\<close>

fun round_robin_loop ::
  "string list \<Rightarrow> string \<Rightarrow> AgentContribution list \<Rightarrow> int \<Rightarrow> AgentContribution list \<Rightarrow>
   world \<Rightarrow> world \<times> (exn + AgentContribution list \<times> AgentContribution list)" where
  "round_robin_loop [] topic history round_num contributions w =
     (w, Inr (history, contributions))"
| "round_robin_loop (agent_type # rest) topic history round_num contributions w =
     (case get_agent_contribution agent_type topic history round_num w of
        (w1, Inl e) \<Rightarrow> (w1, Inl e)
      | (w1, Inr contribution) \<Rightarrow>
          round_robin_loop rest topic (history @ [contribution]) round_num
            (contributions @ [contribution]) w1)"

definition run_round_robin ::
  "string list \<Rightarrow> string \<Rightarrow> AgentContribution list \<Rightarrow> int \<Rightarrow> world \<Rightarrow>
   world \<times> (exn + AgentContribution list \<times> AgentContribution list)" where
  "run_round_robin agent_types topic history round_num w =
     round_robin_loop agent_types topic history round_num [] w"

text \<open>
  \<open>_run_free_form\<close>: every coroutine of the round builds its context from \<open>history\<close>
  before the first response arrives, and nothing changes \<open>history\<close> until
  \<open>asyncio.gather\<close> has returned, so each invocation gets the same list.
  \<open>gather\<close> returns the results in the order of the agent types; the model makes the
  invocations in that order. All coroutines of a round create the same directory, so
  when \<open>mkdir\<close> raises it raises in each before any invocation, and \<open>gather\<close> raises
  the first.
\<close>

fun run_free_form ::
  "string list \<Rightarrow> string \<Rightarrow> AgentContribution list \<Rightarrow> int \<Rightarrow> world \<Rightarrow>
   world \<times> (exn + AgentContribution list)" where
  "run_free_form [] topic history round_num w = (w, Inr [])"
| "run_free_form (agent_type # rest) topic history round_num w =
     (case get_agent_contribution agent_type topic history round_num w of
        (w1, Inl e) \<Rightarrow> (w1, Inl e)
      | (w1, Inr contribution) \<Rightarrow>
          (case run_free_form rest topic history round_num w1 of
             (w2, Inl e) \<Rightarrow> (w2, Inl e)
           | (w2, Inr contributions) \<Rightarrow> (w2, Inr (contribution # contributions))))"

text \<open>The rounds of \<open>run_party_mode\<close>, over \<open>range(1, rounds + 1)\<close>.\<close>

fun run_rounds ::
  "string list \<Rightarrow> string \<Rightarrow> string \<Rightarrow> int list \<Rightarrow> AgentContribution list \<Rightarrow> world \<Rightarrow>
   world \<times> (exn + AgentContribution list)" where
  "run_rounds agent_types topic mode [] discussion_history w = (w, Inr discussion_history)"
| "run_rounds agent_types topic mode (round_num # rest) discussion_history w =
     (if mode = ''round-robin''
      then (case run_round_robin agent_types topic discussion_history round_num w of
              (w1, Inl e) \<Rightarrow> (w1, Inl e)
            | (w1, Inr (history1, round_outputs)) \<Rightarrow>
                run_rounds agent_types topic mode rest (history1 @ round_outputs) w1)
      else (case run_free_form agent_types topic discussion_history round_num w of
              (w1, Inl e) \<Rightarrow> (w1, Inl e)
            | (w1, Inr round_outputs) \<Rightarrow>
                run_rounds agent_types topic mode rest (discussion_history @ round_outputs) w1))"

text \<open>\<open>by_round\<close>: a dictionary in insertion order, from round number to contributions.\<close>

definition group_by_round ::
  "AgentContribution list \<Rightarrow> (int \<times> AgentContribution list) list" where
  "group_by_round discussion_history =
     foldl (\<lambda>by_round contrib.
              AList.update (ac_round_num contrib)
                ((case map_of by_round (ac_round_num contrib) of None \<Rightarrow> [] | Some cs \<Rightarrow> cs)
                 @ [contrib]) by_round)
       [] discussion_history"

definition synthesis_document :: "AgentContribution list \<Rightarrow> string list" where
  "synthesis_document discussion_history =
     (let by_round = group_by_round discussion_history
      in [''# Multi-Agent Discussion Synthesis'', []] @
         concat (map (\<lambda>round_num.
                   [''## Round '' @ str_int round_num, []] @
                   concat (map (\<lambda>contrib.
                             [''**'' @ ac_agent_name contrib @ '' ('' @ ac_agent_type contrib @
                              ''):** '' @ ac_content contrib, []])
                           (case map_of by_round round_num of None \<Rightarrow> [] | Some cs \<Rightarrow> cs)))
                 (sort (map fst by_round))))"

definition synthesis_prompt :: "string list \<Rightarrow> string" where
  "synthesis_prompt synthesis_lines =
     ''Analyze this multi-agent discussion and provide:'' @ newline @
     ''1. Key insights (3-5 bullet points)'' @ newline @
     ''2. Consensus points (where agents agreed)'' @ newline @
     ''3. Conflicting perspectives (where agents disagreed)'' @ newline @
     ''4. Action items (specific next steps)'' @ newline @ newline @
     ''Discussion:'' @ newline @
     join newline synthesis_lines @ newline @ newline @
     ''Please provide a concise synthesis in markdown format.''"

text \<open>The lines that the \<open>except\<close> branch of \<open>_synthesize_discussion\<close> appends.\<close>

definition basic_synthesis :: "string \<Rightarrow> string list" where
  "basic_synthesis e =
     [[], ''## Synthesis (Basic)'', [], ''- Discussion captured above'',
      ''- Unable to generate AI synthesis: '' @ e, []]"

text \<open>
  \<open>_synthesize_discussion\<close> creates its directory inside the \<open>try\<close>: an \<open>OSError\<close>
  there is caught like an exception of the invocation.
\<close>

definition synthesize_discussion :: "AgentContribution list \<Rightarrow> world \<Rightarrow> world \<times> string" where
  "synthesize_discussion discussion_history w =
     (let synthesis_lines = synthesis_document discussion_history
      in case (case mkdir_error w (party_mode_dir ''synthesis'') of
                 Some msg \<Rightarrow> (w, Raises msg)
               | None \<Rightarrow> invoke w ''planner'' (synthesis_prompt synthesis_lines)) of
           (w1, Returns st response_text) \<Rightarrow>
             (w1, join newline
                    (synthesis_lines @ [[], ''## AI-Generated Synthesis'', [], response_text]))
         | (w1, Raises e) \<Rightarrow>
             (w1, join newline (synthesis_lines @ basic_synthesis e)))"

definition run_party_mode ::
  "string list \<Rightarrow> string \<Rightarrow> int \<Rightarrow> string \<Rightarrow> world \<Rightarrow> world \<times> (exn + PartyModeResult)" where
  "run_party_mode agent_types discussion_topic rounds mode w =
     (case run_rounds agent_types discussion_topic mode [1..rounds] [] w of
        (w1, Inl e) \<Rightarrow> (w1, Inl e)
      | (w1, Inr history) \<Rightarrow>
          (let (w2, syn) = synthesize_discussion history w1
           in (w2, Inr \<lparr>pm_discussion_history = history, pm_synthesis = syn,
                        pm_status = ''success''\<rparr>)))"

section \<open>Auxiliary definitions and example environments\<close>

text \<open>The list that \<open>mark_step_complete\<close> stores, from the list it read.\<close>

definition marked :: "string list \<Rightarrow> string \<Rightarrow> string list" where
  "marked xs s = (if s \<in> set xs then xs else xs @ [s])"

text \<open>
  What changes the state files, as data, and a run of such operations in order: the
  operations of the store that write, and a run of the engine. \<open>save_state\<close> is the
  write that the three \<open>mark\<close> operations end with; nothing else calls it.
\<close>

datatype store_op =
  MarkStepComplete string string
| MarkWorkflowComplete string
| MarkWorkflowFailed string string "int option"
| ResetWorkflow string
| ExecuteWorkflow string "string list"

fun apply_store_op :: "world \<Rightarrow> store_op \<Rightarrow> world" where
  "apply_store_op w (MarkStepComplete k s) = fst (mark_step_complete w k s)"
| "apply_store_op w (MarkWorkflowComplete k) = fst (mark_workflow_complete w k)"
| "apply_store_op w (MarkWorkflowFailed k e n) = fst (mark_workflow_failed w k e n)"
| "apply_store_op w (ResetWorkflow k) = fst (reset_workflow w k)"
| "apply_store_op w (ExecuteWorkflow k callbacks) = fst (execute_workflow True k callbacks w)"

definition apply_store_ops :: "world \<Rightarrow> store_op list \<Rightarrow> world" where
  "apply_store_ops w ops = foldl apply_store_op w ops"

text \<open>What \<open>mark_workflow_failed\<close> would record, and whether a record says \<open>failed\<close>.\<close>

definition failure_record ::
  "exec_state \<Rightarrow> string option \<times> int option \<times> timestamp option" where
  "failure_record st = (lastError st, failedAtStep st, failedAt st)"

definition records_failure :: "exec_state \<Rightarrow> bool" where
  "records_failure st = (status st = Some ''failed'')"

text \<open>A project with no state files, no workflows and no agent.\<close>

definition fresh_world :: world where
  "fresh_world =
     \<lparr>clock = 0, files = (\<lambda>_. None), writable = (\<lambda>_. True), workflows = (\<lambda>_. None),
      step_files = (\<lambda>_. None), output_files = (\<lambda>_. None),
      agent = (\<lambda>_. Raises ''unavailable''), calls = [], events = [],
      mkdir_error = (\<lambda>_. None)\<rparr>"

text \<open>
  A project whose only workflow is \<open>create-prd\<close> with the given steps, every step file
  present, no state file yet, and the given agent behaviour.
\<close>

definition engine_world ::
  "WorkflowStep list \<Rightarrow> ((string \<times> string) list \<Rightarrow> response) \<Rightarrow> world" where
  "engine_world steps behaviour =
     \<lparr>clock = 0, files = (\<lambda>_. None), writable = (\<lambda>_. True),
      workflows = (\<lambda>n. if n = ''create-prd''
                        then Some \<lparr>wf_name = ''create-prd'', wf_path = ''planning/create-prd'',
                                   wf_steps = steps, wf_outputs = []\<rparr>
                        else None),
      step_files = (\<lambda>_. Some ''Write the section.''),
      output_files = (\<lambda>_. None),
      agent = behaviour, calls = [], events = [],
      mkdir_error = (\<lambda>_. None)\<rparr>"

text \<open>An agent boundary that raises for the \<open>coder\<close> agent type and completes otherwise.\<close>

definition coder_unavailable :: "(string \<times> string) list \<Rightarrow> response" where
  "coder_unavailable cs =
     (if fst (last cs) = ''coder'' then Raises ''boom'' else Returns ''complete'' ''done'')"

text \<open>An agent boundary that completes every invocation.\<close>

definition always_complete :: "(string \<times> string) list \<Rightarrow> response" where
  "always_complete cs = Returns ''complete'' ''  We should ship it.  ''"

definition distinct_steps :: "WorkflowStep list" where
  "distinct_steps =
     [\<lparr>step_file = ''steps/step-01.md'', step_name = ''draft'', step_agent = ''pm''\<rparr>,
      \<lparr>step_file = ''steps/step-02.md'', step_name = ''build'', step_agent = ''dev''\<rparr>]"

definition repeated_steps :: "WorkflowStep list" where
  "repeated_steps =
     [\<lparr>step_file = ''steps/step-01.md'', step_name = ''review'', step_agent = ''pm''\<rparr>,
      \<lparr>step_file = ''steps/step-02.md'', step_name = ''review'', step_agent = ''architect''\<rparr>,
      \<lparr>step_file = ''steps/step-03.md'', step_name = ''publish'', step_agent = ''dev''\<rparr>]"

definition example_ops :: "store_op list" where
  "example_ops =
     [MarkStepComplete ''other'' ''s1'',
      ExecuteWorkflow ''create-prd'' [''on_error''],
      MarkWorkflowFailed ''create-prd'' ''boom'' (Some 2),
      MarkStepComplete ''create-prd'' ''draft'',
      MarkWorkflowComplete ''other'',
      ResetWorkflow ''other'']"

text \<open>A project in which every invocation completes and every directory can be created.\<close>

definition party_world :: world where
  "party_world = fresh_world\<lparr>agent := always_complete\<rparr>"

text \<open>The same project on a file system that refuses to create directories.\<close>

definition read_only_world :: world where
  "read_only_world = party_world\<lparr>mkdir_error := (\<lambda>_. Some ''Permission denied'')\<rparr>"

section \<open>The state store: reading after a write\<close>

lemma get_state_clock [simp]: "get_state (w\<lparr>clock := c\<rparr>) k = get_state w k"
  by (simp add: get_state_def)

lemma get_state_save:
  "get_state (fst (save_state w k st)) k' =
     (if k' = k \<and> writable w k then st else get_state w k')"
  by (simp add: save_state_def get_state_def)

lemma writable_save [simp]: "writable (fst (save_state w k st)) = writable w"
  by (simp add: save_state_def)

lemma get_state_mark_other:
  "k' \<noteq> k \<or> \<not> writable w k \<Longrightarrow>
   get_state (fst (mark_step_complete w k s)) k' = get_state w k'"
  by (auto simp: mark_step_complete_def Let_def now_def get_state_save split: prod.splits)

lemma stepsCompleted_mark:
  "writable w k \<Longrightarrow>
   stepsCompleted (get_state (fst (mark_step_complete w k s)) k) =
     Some (marked (completed_steps (get_state w k)) s)"
  by (auto simp: mark_step_complete_def Let_def now_def get_state_save marked_def
           split: prod.splits)

lemma currentStep_mark:
  "writable w k \<Longrightarrow>
   currentStep (get_state (fst (mark_step_complete w k s)) k) =
     Some (int (length (marked (completed_steps (get_state w k)) s)))"
  by (auto simp: mark_step_complete_def Let_def now_def get_state_save marked_def
           split: prod.splits)

lemma writable_mark [simp]: "writable (fst (mark_step_complete w k s)) = writable w"
  by (simp add: mark_step_complete_def Let_def now_def split: prod.splits)

lemma completed_steps_mark:
  "completed_steps (get_state (fst (mark_step_complete w k s)) k) =
     (if writable w k then marked (completed_steps (get_state w k)) s
      else completed_steps (get_state w k))"
  by (simp add: completed_steps_def stepsCompleted_mark get_state_mark_other)

lemma marked_twice: "marked (marked xs s) s = marked xs s"
  by (simp add: marked_def)

lemma distinct_marked: "distinct xs \<Longrightarrow> distinct (marked xs s)"
  by (simp add: marked_def)

section \<open>The engine: what a run leaves in the store\<close>

lemma get_state_fire [simp]: "get_state (fire callbacks key ev w) k = get_state w k"
  by (simp add: fire_def get_state_def)

lemma get_state_execute_step [simp]:
  "get_state (fst (execute_step workflow step w)) k = get_state w k"
proof -
  have "files (fst (execute_step workflow step w)) = files w"
    by (simp add: execute_step_def invoke_def Let_def split: option.splits response.splits)
  then show ?thesis
    by (simp add: get_state_def)
qed

lemma failure_record_mark:
  "failure_record (get_state (fst (mark_step_complete w k s)) k') =
     failure_record (get_state w k')"
  by (simp add: mark_step_complete_def Let_def now_def get_state_save failure_record_def
           split: prod.splits)

lemma failure_record_complete:
  "failure_record (get_state (fst (mark_workflow_complete w k)) k') =
     failure_record (get_state w k')"
  by (simp add: mark_workflow_complete_def Let_def now_def get_state_save failure_record_def
           split: prod.splits)

lemma records_failure_mark:
  "records_failure (get_state (fst (mark_step_complete w k s)) k') \<Longrightarrow>
   records_failure (get_state w k')"
  by (auto simp: mark_step_complete_def Let_def now_def get_state_save records_failure_def
           split: prod.splits if_splits)

lemma records_failure_complete:
  "records_failure (get_state (fst (mark_workflow_complete w k)) k') \<Longrightarrow>
   records_failure (get_state w k')"
  by (auto simp: mark_workflow_complete_def Let_def now_def get_state_save records_failure_def
           split: prod.splits if_splits)

text \<open>
  The loop writes neither \<open>lastError\<close>, \<open>failedAtStep\<close> nor \<open>failedAt\<close>, and a record
  that says \<open>failed\<close> after the loop said so before it.
\<close>

lemma run_steps_never_records_failure:
  "failure_record (get_state (fst (run_steps sm name workflow callbacks i steps results w)) k) =
     failure_record (get_state w k) \<and>
   (records_failure (get_state (fst (run_steps sm name workflow callbacks i steps results w)) k)
      \<longrightarrow> records_failure (get_state w k))"
proof (induction steps arbitrary: i results w)
  case Nil
  then show ?case by simp
next
  case (Cons step rest)
  let ?w1 = "fire callbacks ''on_step_start'' (OnStepStart (int i + 1) (step_name step)) w"
  obtain w2 sr where ex: "execute_step workflow step ?w1 = (w2, sr)"
    by (cases "execute_step workflow step ?w1")
  have w2: "get_state w2 k = get_state w k"
    using get_state_execute_step [of workflow step ?w1 k] by (simp add: ex)
  show ?case
  proof (cases "sr_status sr = ''failed''")
    case True
    then show ?thesis
      by (simp add: ex Let_def w2)
  next
    case False
    let ?w3 = "if sm then fst (mark_step_complete w2 name (step_name step)) else w2"
    let ?w4 = "fire callbacks ''on_step_complete'' (OnStepComplete (int i + 1) (sr_output sr)) ?w3"
    have a: "failure_record (get_state ?w4 k) = failure_record (get_state w k)"
      by (simp add: failure_record_mark w2)
    have b: "records_failure (get_state ?w4 k) \<longrightarrow> records_failure (get_state w k)"
      using records_failure_mark [of w2 name "step_name step" k] by (simp add: w2)
    from Cons.IH [of "Suc i" "results @ [sr]" ?w4] a b
    show ?thesis
      using False by (simp add: ex Let_def)
  qed
qed

text \<open>
  So no call of \<open>execute_workflow\<close>, whatever it returns, records a failure in the store.
\<close>

lemma execute_workflow_never_records_failure:
  "failure_record (get_state (fst (execute_workflow sm name callbacks w)) k) =
     failure_record (get_state w k) \<and>
   (records_failure (get_state (fst (execute_workflow sm name callbacks w)) k)
      \<longrightarrow> records_failure (get_state w k))"
proof (cases "workflows w name")
  case None
  then show ?thesis
    by (simp add: execute_workflow_def)
next
  case (Some workflow)
  let ?n = "length (completed_steps (if sm then get_state w name else empty_state))"
  let ?run = "run_steps sm name workflow callbacks ?n (drop ?n (wf_steps workflow)) [] w"
  have loop: "failure_record (get_state (fst ?run) k) = failure_record (get_state w k) \<and>
      (records_failure (get_state (fst ?run) k) \<longrightarrow> records_failure (get_state w k))"
    by (rule run_steps_never_records_failure)
  obtain w1 res where run: "?run = (w1, res)"
    by (cases ?run)
  show ?thesis
  proof (cases res)
    case (Inl failed)
    then show ?thesis
      using loop by (simp add: execute_workflow_def Some Let_def run)
  next
    case (Inr results)
    then show ?thesis
      using loop records_failure_complete [of w1 name k]
      by (auto simp: execute_workflow_def Some Let_def run failure_record_complete)
  qed
qed

lemma writable_fire [simp]: "writable (fire callbacks key ev w) = writable w"
  by (simp add: fire_def)

lemma writable_execute_step [simp]:
  "writable (fst (execute_step workflow step w)) = writable w"
  by (simp add: execute_step_def invoke_def Let_def split: option.splits response.splits)


section \<open>The step count invariant\<close>

lemma step_count_ok_default: "step_count_ok default_state"
  by (simp add: step_count_ok_def default_state_def)

lemma step_count_ok_mark:
  assumes "step_count_ok (get_state w k')"
  shows "step_count_ok (get_state (fst (mark_step_complete w k s)) k')"
proof (cases "k' = k \<and> writable w k")
  case True
  then show ?thesis
    by (simp add: step_count_ok_def stepsCompleted_mark currentStep_mark)
next
  case False
  then show ?thesis
    using assms by (simp add: get_state_mark_other)
qed

lemma step_count_ok_complete:
  assumes "step_count_ok (get_state w k')"
  shows "step_count_ok (get_state (fst (mark_workflow_complete w k)) k')"
  using assms
  by (auto simp: mark_workflow_complete_def Let_def now_def get_state_save step_count_ok_def
           split: prod.splits option.splits)

lemma step_count_ok_failed:
  assumes "step_count_ok (get_state w k')"
  shows "step_count_ok (get_state (fst (mark_workflow_failed w k e n)) k')"
  using assms
  by (auto simp: mark_workflow_failed_def Let_def now_def get_state_save step_count_ok_def
           split: prod.splits option.splits)

lemma step_count_ok_reset:
  assumes "step_count_ok (get_state w k')"
  shows "step_count_ok (get_state (fst (reset_workflow w k)) k')"
  using assms
  by (auto simp: reset_workflow_def get_state_def step_count_ok_default)

lemma step_count_ok_run_steps:
  assumes "step_count_ok (get_state w k)"
  shows "step_count_ok (get_state (fst (run_steps sm name workflow callbacks i steps results w)) k)"
  using assms
proof (induction steps arbitrary: i results w)
  case Nil
  then show ?case by simp
next
  case (Cons step rest)
  let ?w1 = "fire callbacks ''on_step_start'' (OnStepStart (int i + 1) (step_name step)) w"
  obtain w2 sr where ex: "execute_step workflow step ?w1 = (w2, sr)"
    by (cases "execute_step workflow step ?w1")
  have w2: "get_state w2 k = get_state w k"
    using get_state_execute_step [of workflow step ?w1 k] by (simp add: ex)
  show ?case
  proof (cases "sr_status sr = ''failed''")
    case True
    then show ?thesis
      using Cons.prems by (simp add: ex Let_def w2)
  next
    case False
    let ?w3 = "if sm then fst (mark_step_complete w2 name (step_name step)) else w2"
    let ?w4 = "fire callbacks ''on_step_complete'' (OnStepComplete (int i + 1) (sr_output sr)) ?w3"
    have "step_count_ok (get_state ?w4 k)"
      using Cons.prems step_count_ok_mark [of w2 k name "step_name step"] by (simp add: w2)
    from Cons.IH [OF this, of "Suc i" "results @ [sr]"]
    show ?thesis
      using False by (simp add: ex Let_def)
  qed
qed

lemma step_count_ok_execute_workflow:
  assumes "step_count_ok (get_state w k)"
  shows "step_count_ok (get_state (fst (execute_workflow sm name callbacks w)) k)"
proof (cases "workflows w name")
  case None
  then show ?thesis
    using assms by (simp add: execute_workflow_def)
next
  case (Some workflow)
  let ?n = "length (completed_steps (if sm then get_state w name else empty_state))"
  let ?run = "run_steps sm name workflow callbacks ?n (drop ?n (wf_steps workflow)) [] w"
  have loop: "step_count_ok (get_state (fst ?run) k)"
    using assms by (rule step_count_ok_run_steps)
  obtain w1 res where run: "?run = (w1, res)"
    by (cases ?run)
  show ?thesis
  proof (cases res)
    case (Inl failed)
    then show ?thesis
      using loop by (simp add: execute_workflow_def Some Let_def run)
  next
    case (Inr results)
    then show ?thesis
      using loop step_count_ok_complete [of w1 k name]
      by (simp add: execute_workflow_def Some Let_def run)
  qed
qed

lemma step_count_ok_op:
  assumes "step_count_ok (get_state w k)"
  shows "step_count_ok (get_state (apply_store_op w x) k)"
  using assms
  by (cases x)
     (simp_all add: step_count_ok_mark step_count_ok_complete step_count_ok_failed
        step_count_ok_reset step_count_ok_execute_workflow)

lemma step_count_ok_ops:
  assumes "step_count_ok (get_state w k)"
  shows "step_count_ok (get_state (apply_store_ops w ops) k)"
  using assms unfolding apply_store_ops_def
  by (induction ops arbitrary: w) (simp_all add: step_count_ok_op)

text \<open>
  C3. Starting from the default record of a workflow, after any sequence of
  \<open>mark_step_complete\<close>, \<open>mark_workflow_complete\<close>, \<open>mark_workflow_failed\<close>,
  \<open>reset_workflow\<close> and runs of the engine, on any workflow names and whether or not
  the writes succeed, \<open>get_state\<close> returns a record with
  \<open>currentStep == len(stepsCompleted)\<close>.
\<close>

theorem currentStep_counts_completed_steps:
  assumes "get_state w workflow_name = default_state"
  shows "step_count_ok (get_state (apply_store_ops w ops) workflow_name)"
proof -
  have "step_count_ok (get_state w workflow_name)"
    by (simp add: assms step_count_ok_default)
  then show ?thesis
    by (rule step_count_ok_ops)
qed

theorem currentStep_counts_completed_steps_witness:
  "get_state (engine_world distinct_steps coder_unavailable) ''create-prd'' = default_state \<and>
   step_count_ok
     (get_state (apply_store_ops (engine_world distinct_steps coder_unavailable) example_ops)
        ''create-prd'') \<and>
   stepsCompleted
     (get_state (apply_store_ops (engine_world distinct_steps coder_unavailable) example_ops)
        ''create-prd'') = Some [''draft''] \<and>
   currentStep
     (get_state (apply_store_ops (engine_world distinct_steps coder_unavailable) example_ops)
        ''create-prd'') = Some 1"
proof -
  let ?w = "engine_world distinct_steps coder_unavailable"
  have d: "get_state ?w ''create-prd'' = default_state"
    by (simp add: engine_world_def get_state_def)
  have s: "stepsCompleted (get_state (apply_store_ops ?w example_ops) ''create-prd'') =
             Some [''draft'']"
    by code_simp
  have c: "currentStep (get_state (apply_store_ops ?w example_ops) ''create-prd'') = Some 1"
    by code_simp
  show ?thesis
    using d s c currentStep_counts_completed_steps [OF d, of example_ops] by simp
qed

section \<open>Idempotent completion\<close>

text \<open>
  C4. \<open>mark_step_complete\<close> is idempotent in the step name. On a writable store whose
  record has no completed step, two calls with the same step name leave
  \<open>stepsCompleted == [s]\<close>; on any store the second call leaves \<open>stepsCompleted\<close> as the
  first call left it; and a \<open>stepsCompleted\<close> without duplicates has none after the call.
\<close>

theorem mark_step_complete_idempotent:
  "(writable w key \<and> completed_steps (get_state w key) = [] \<longrightarrow>
      stepsCompleted
        (get_state (fst (mark_step_complete (fst (mark_step_complete w key s)) key s)) key) =
      Some [s]) \<and>
   stepsCompleted
     (get_state (fst (mark_step_complete (fst (mark_step_complete w key s)) key s)) key) =
   stepsCompleted (get_state (fst (mark_step_complete w key s)) key) \<and>
   (distinct (completed_steps (get_state w key)) \<longrightarrow>
      distinct (completed_steps (get_state (fst (mark_step_complete w key s)) key)))"
proof (intro conjI impI)
  assume a: "writable w key \<and> completed_steps (get_state w key) = []"
  then show "stepsCompleted
        (get_state (fst (mark_step_complete (fst (mark_step_complete w key s)) key s)) key) =
      Some [s]"
    by (simp add: stepsCompleted_mark completed_steps_mark marked_def)
next
  show "stepsCompleted
     (get_state (fst (mark_step_complete (fst (mark_step_complete w key s)) key s)) key) =
   stepsCompleted (get_state (fst (mark_step_complete w key s)) key)"
  proof (cases "writable w key")
    case True
    then show ?thesis
      by (simp add: stepsCompleted_mark completed_steps_mark marked_twice)
  next
    case False
    then show ?thesis
      by (simp add: get_state_mark_other)
  qed
next
  assume "distinct (completed_steps (get_state w key))"
  then show "distinct (completed_steps (get_state (fst (mark_step_complete w key s)) key))"
    by (simp add: completed_steps_mark distinct_marked)
qed

theorem mark_step_complete_idempotent_witness:
  "writable fresh_world ''create-prd'' \<and>
   completed_steps (get_state fresh_world ''create-prd'') = [] \<and>
   distinct (completed_steps (get_state fresh_world ''create-prd'')) \<and>
   stepsCompleted
     (get_state
        (fst (mark_step_complete (fst (mark_step_complete fresh_world ''create-prd'' ''s1''))
                ''create-prd'' ''s1''))
        ''create-prd'') = Some [''s1'']"
proof -
  have a: "writable fresh_world ''create-prd''"
    by (simp add: fresh_world_def)
  have b: "completed_steps (get_state fresh_world ''create-prd'') = []"
    by (simp add: fresh_world_def get_state_def default_state_def completed_steps_def)
  show ?thesis
    using a b mark_step_complete_idempotent [of fresh_world "''create-prd''" "''s1''"]
    by simp
qed

section \<open>The engine: re-running a completed workflow\<close>

lemma calls_mark_complete [simp]:
  "calls (fst (mark_workflow_complete w k)) = calls w"
  by (simp add: mark_workflow_complete_def Let_def now_def save_state_def split: prod.splits)

lemma events_mark_complete [simp]:
  "events (fst (mark_workflow_complete w k)) = events w"
  by (simp add: mark_workflow_complete_def Let_def now_def save_state_def split: prod.splits)

lemma output_files_mark_complete [simp]:
  "output_files (fst (mark_workflow_complete w k)) = output_files w"
  by (simp add: mark_workflow_complete_def Let_def now_def save_state_def split: prod.splits)

lemma collect_outputs_cong:
  "output_files w' = output_files w \<Longrightarrow> collect_outputs workflow w' = collect_outputs workflow w"
  by (simp add: collect_outputs_def)

text \<open>
  When the step names of a workflow are distinct and each is in \<open>stepsCompleted\<close>,
  \<open>stepsCompleted\<close> has an entry for every step.
\<close>

lemma all_names_listed:
  assumes "distinct (map step_name steps)"
    and "set (map step_name steps) \<subseteq> set completed"
  shows "length steps \<le> length completed"
proof -
  have "length steps = length (map step_name steps)"
    by simp
  also have "\<dots> = card (set (map step_name steps))"
    using assms(1) by (rule distinct_card [symmetric])
  also have "\<dots> \<le> card (set completed)"
    using assms(2) by (intro card_mono) simp_all
  also have "\<dots> \<le> length completed"
    by (rule card_length)
  finally show ?thesis .
qed

text \<open>
  When the persisted \<open>stepsCompleted\<close> has as many entries as the workflow has steps
  (the resume index is not below the number of steps), \<open>execute_workflow\<close> returns
  \<open>success\<close>, makes no agent invocation, and fires no callback but
  \<open>on_workflow_complete\<close>.
\<close>

lemma rerun_with_every_step_counted:
  assumes "workflows w workflow_name = Some workflow"
    and "length (wf_steps workflow) \<le> length (completed_steps (get_state w workflow_name))"
  shows "wr_status (snd (execute_workflow True workflow_name callbacks w)) = ''success'' \<and>
         calls (fst (execute_workflow True workflow_name callbacks w)) = calls w \<and>
         events (fst (execute_workflow True workflow_name callbacks w)) =
           events (fire callbacks ''on_workflow_complete''
                     (OnWorkflowComplete (collect_outputs workflow w)) w)"
proof -
  let ?n = "length (completed_steps (get_state w workflow_name))"
  let ?w2 = "fst (mark_workflow_complete w workflow_name)"
  have rest: "drop ?n (wf_steps workflow) = []"
    using assms(2) by simp
  have loop: "run_steps True workflow_name workflow callbacks ?n
                (drop ?n (wf_steps workflow)) [] w = (w, Inr [])"
    by (simp only: rest run_steps.simps)
  have outs: "collect_outputs workflow ?w2 = collect_outputs workflow w"
    by (rule collect_outputs_cong) simp
  have run: "execute_workflow True workflow_name callbacks w =
     (fire callbacks ''on_workflow_complete'' (OnWorkflowComplete (collect_outputs workflow w)) ?w2,
      \<lparr>wr_status = ''success'', wr_outputs = Some (collect_outputs workflow w),
       wr_failed_step = None, wr_error = None\<rparr>)"
    unfolding execute_workflow_def
    by (simp only: assms(1) option.case if_True Let_def loop prod.case sum.case outs)
  show ?thesis
    unfolding run by (simp add: fire_def)
qed

text \<open>
  C7 on the code. The workflow has three steps named \<open>review\<close>, \<open>review\<close> and
  \<open>publish\<close>, and every invocation completes. The first run invokes the agent for the
  three steps, returns \<open>success\<close> and leaves the record \<open>completed\<close> with
  \<open>stepsCompleted == [review, publish]\<close>: every step name is listed, but the resume
  index is 2. The second run therefore starts at step 3: it fires \<open>on_step_start\<close> for
  \<open>publish\<close> and makes one more agent invocation before it returns \<open>success\<close>.
\<close>

theorem rerun_repeats_the_last_step:
  "(case execute_workflow True ''create-prd'' [''on_step_start'']
           (engine_world repeated_steps always_complete) of
      (w1, r1) \<Rightarrow>
        (case execute_workflow True ''create-prd'' [''on_step_start''] w1 of
           (w2, r2) \<Rightarrow>
             wr_status r1 = ''success'' \<and>
             status (get_state w1 ''create-prd'') = Some ''completed'' \<and>
             stepsCompleted (get_state w1 ''create-prd'') = Some [''review'', ''publish''] \<and>
             events w1 =
               [OnStepStart 1 ''review'', OnStepStart 2 ''review'', OnStepStart 3 ''publish''] \<and>
             map fst (calls w1) = [''planner'', ''planner'', ''coder''] \<and>
             wr_status r2 = ''success'' \<and>
             events w2 = events w1 @ [OnStepStart 3 ''publish''] \<and>
             map fst (calls w2) = map fst (calls w1) @ [''coder'']))"
  by code_simp

section \<open>The engine: a failing step\<close>

text \<open>
  C1 on the code. The workflow has the steps \<open>draft\<close> and \<open>build\<close>, and the agent
  boundary raises for the second. \<open>execute_workflow\<close> returns \<open>failed\<close> with
  \<open>failed_step = 2\<close> and fires \<open>on_error\<close>, but the failure branch never calls
  \<open>mark_workflow_failed\<close>: the persisted record still says \<open>in_progress\<close>, and has no
  \<open>lastError\<close>, no \<open>failedAtStep\<close> and no \<open>failedAt\<close>. \<open>stepsCompleted\<close> is kept.
\<close>

theorem failure_is_not_persisted:
  "(case execute_workflow True ''create-prd'' [''on_error'']
           (engine_world distinct_steps coder_unavailable) of
      (w, r) \<Rightarrow>
        wr_status r = ''failed'' \<and> wr_failed_step r = Some 2 \<and>
        wr_error r = Some ''Error executing step: boom'' \<and>
        events w = [OnError ''Step 2 failed: Error executing step: boom''] \<and>
        get_state w ''create-prd'' =
          \<lparr>status = Some ''in_progress'', stepsCompleted = Some [''draft''],
           currentStep = Some 1, startedAt = Some 0, completedAt = None, failedAt = None,
           lastUpdated = Some 1, lastError = None, failedAtStep = None\<rparr>)"
  by code_simp

section \<open>The engine: resuming after a failure\<close>

text \<open>
  With a writable store and step names that are distinct and not yet recorded, a run that
  fails leaves as many entries in \<open>stepsCompleted\<close> as steps came before the failed
  one, so the next run starts at the failed step.
\<close>

lemma run_steps_failure_point:
  assumes "writable w name"
    and "distinct (completed_steps (get_state w name) @ map step_name steps)"
    and "length (completed_steps (get_state w name)) = i"
    and "run_steps True name workflow callbacks i steps results w = (w', Inl failed)"
  shows "wr_failed_step failed =
           Some (int (length (completed_steps (get_state w' name))) + 1)"
  using assms
proof (induction steps arbitrary: i results w)
  case Nil
  then show ?case by simp
next
  case (Cons step rest)
  let ?w1 = "fire callbacks ''on_step_start'' (OnStepStart (int i + 1) (step_name step)) w"
  obtain w2 sr where ex: "execute_step workflow step ?w1 = (w2, sr)"
    by (cases "execute_step workflow step ?w1")
  have st2: "get_state w2 name = get_state w name"
    using get_state_execute_step [of workflow step ?w1 name] by (simp add: ex)
  have wr2: "writable w2 name"
    using writable_execute_step [of workflow step ?w1] Cons.prems(1) by (simp add: ex)
  show ?case
  proof (cases "sr_status sr = ''failed''")
    case True
    then show ?thesis
      using Cons.prems(3,4) by (auto simp: ex Let_def st2)
  next
    case False
    let ?w3 = "fst (mark_step_complete w2 name (step_name step))"
    let ?w4 = "fire callbacks ''on_step_complete'' (OnStepComplete (int i + 1) (sr_output sr)) ?w3"
    have new: "step_name step \<notin> set (completed_steps (get_state w name))"
      using Cons.prems(2) by auto
    have done3: "completed_steps (get_state ?w3 name) =
                   completed_steps (get_state w name) @ [step_name step]"
      using new wr2 by (simp add: completed_steps_mark st2 marked_def)
    have a: "writable ?w4 name"
      using wr2 by simp
    have b: "distinct (completed_steps (get_state ?w4 name) @ map step_name rest)"
      using Cons.prems(2) by (simp add: done3)
    have c: "length (completed_steps (get_state ?w4 name)) = Suc i"
      using Cons.prems(3) by (simp add: done3)
    have d: "run_steps True name workflow callbacks (Suc i) rest (results @ [sr]) ?w4 =
               (w', Inl failed)"
      using Cons.prems(4) False by (simp add: ex Let_def)
    show ?thesis
      by (rule Cons.IH [OF a b c d])
  qed
qed

lemma failed_run_leaves_resume_index_at_failed_step:
  assumes "workflows w name = Some workflow"
    and "writable w name"
    and "distinct (map step_name (wf_steps workflow))"
    and "completed_steps (get_state w name) = []"
    and "execute_workflow True name callbacks w = (w', r)"
    and "wr_status r = ''failed''"
  shows "wr_failed_step r = Some (int (length (completed_steps (get_state w' name))) + 1)"
proof -
  let ?run = "run_steps True name workflow callbacks 0 (wf_steps workflow) [] w"
  obtain w1 res where run: "?run = (w1, res)"
    by (cases ?run)
  show ?thesis
  proof (cases res)
    case (Inl failed)
    have eq: "w' = w1" "r = failed"
      using assms(5) by (simp_all add: execute_workflow_def assms(1,4) Let_def run Inl)
    have "wr_failed_step failed =
            Some (int (length (completed_steps (get_state w1 name))) + 1)"
    proof (rule run_steps_failure_point)
      show "writable w name" by (rule assms(2))
      show "distinct (completed_steps (get_state w name) @ map step_name (wf_steps workflow))"
        using assms(3,4) by simp
      show "length (completed_steps (get_state w name)) = 0"
        using assms(4) by simp
      show "run_steps True name workflow callbacks 0 (wf_steps workflow) [] w = (w1, Inl failed)"
        using run Inl by simp
    qed
    then show ?thesis
      by (simp add: eq)
  next
    case (Inr results)
    then have "wr_status r = ''success''"
      using assms(5) by (auto simp: execute_workflow_def assms(1,4) Let_def run)
    then show ?thesis
      using assms(6) by simp
  qed
qed

text \<open>
  C2 on the code. The workflow has three steps named \<open>review\<close>, \<open>review\<close> and
  \<open>publish\<close>, and the agent boundary raises for the third. The first run completes steps
  1 and 2 and fails at step 3; \<open>mark_step_complete\<close> stores the name \<open>review\<close> once, so
  the resume index read by the second run is 1: the second run starts again at step 2,
  which had completed, and makes a second agent invocation for it before it reaches
  step 3.
\<close>

theorem resume_repeats_a_completed_step:
  "(case execute_workflow True ''create-prd'' [''on_step_start'']
           (engine_world repeated_steps coder_unavailable) of
      (w1, r1) \<Rightarrow>
        (case execute_workflow True ''create-prd'' [''on_step_start''] w1 of
           (w2, r2) \<Rightarrow>
             wr_status r1 = ''failed'' \<and> wr_failed_step r1 = Some 3 \<and>
             stepsCompleted (get_state w1 ''create-prd'') = Some [''review''] \<and>
             events w1 =
               [OnStepStart 1 ''review'', OnStepStart 2 ''review'', OnStepStart 3 ''publish''] \<and>
             map fst (calls w1) = [''planner'', ''planner'', ''coder''] \<and>
             events w2 = events w1 @ [OnStepStart 2 ''review'', OnStepStart 3 ''publish''] \<and>
             map fst (calls w2) = map fst (calls w1) @ [''planner'', ''coder'']))"
  by code_simp

section \<open>Party mode: one contribution\<close>

lemma get_agent_contribution_raises:
  "mkdir_error w (round_dir r) = Some m \<Longrightarrow>
   get_agent_contribution a topic history r w = (w, Inl (OSError m))"
  by (simp add: get_agent_contribution_def case_prod_beta)

lemma get_agent_contribution_returns:
  assumes "mkdir_error w (round_dir r) = None"
  shows "\<exists>w' c. get_agent_contribution a topic history r w = (w', Inr c) \<and>
           calls w' = calls w @ [(party_agent_type a, build_context a topic history)] \<and>
           mkdir_error w' = mkdir_error w \<and>
           ac_agent_type c = a \<and> ac_agent_name c = fst (persona a) \<and> ac_round_num c = r \<and>
           ac_content c =
             (case agent w (calls w @ [(party_agent_type a, build_context a topic history)]) of
                Returns st text \<Rightarrow>
                  (if 500 < length (strip text) then take 497 (strip text) @ ''...''
                   else strip text)
              | Raises e \<Rightarrow>
                  fst (persona a) @ '' ('' @ snd (persona a) @
                  ''): Unable to contribute (error: '' @ e @ '')'')"
proof (cases "agent w (calls w @ [(party_agent_type a, build_context a topic history)])")
  case (Raises e)
  then show ?thesis
    using assms
    by (simp add: get_agent_contribution_def invoke_def now_def Let_def case_prod_beta)
next
  case (Returns st body)
  then show ?thesis
    using assms
    by (simp add: get_agent_contribution_def invoke_def now_def Let_def case_prod_beta)
qed

lemma calls_get_agent_contribution:
  "calls (fst (get_agent_contribution a topic history r w)) =
     (case mkdir_error w (round_dir r) of
        None \<Rightarrow> calls w @ [(party_agent_type a, build_context a topic history)]
      | Some m \<Rightarrow> calls w)"
proof (cases "mkdir_error w (round_dir r)")
  case None
  from get_agent_contribution_returns [OF None, of a topic history]
  show ?thesis
    by (auto simp: None)
next
  case (Some m)
  then show ?thesis
    by (simp add: get_agent_contribution_raises)
qed

section \<open>Party mode: bounded history\<close>

lemma last_10_idem: "last_10 (last_10 history) = last_10 history"
  by (simp add: last_10_def)

lemma last_10_Nil: "last_10 history = [] \<longleftrightarrow> history = []"
  by (cases history) (auto simp: last_10_def)

text \<open>
  C8. The context of an invocation is the context built from the last ten entries of the
  history alone: \<open>last_10 history\<close> has \<open>min 10 (len history)\<close> entries, it is the end of
  the history, and the message that the agent boundary receives is built from it (no
  message is sent when the directory of the round cannot be created).
\<close>

theorem context_has_at_most_ten_contributions:
  "build_context a topic history = build_context a topic (last_10 history) \<and>
   length (last_10 history) = min 10 (length history) \<and>
   (\<exists>older. history = older @ last_10 history) \<and>
   calls (fst (get_agent_contribution a topic history r w)) =
     (case mkdir_error w (round_dir r) of
        None \<Rightarrow> calls w @ [(party_agent_type a, build_context a topic (last_10 history))]
      | Some m \<Rightarrow> calls w)"
proof (intro conjI)
  show same: "build_context a topic history = build_context a topic (last_10 history)"
    by (simp add: build_context_def context_lines_def last_10_idem last_10_Nil)
  show "length (last_10 history) = min 10 (length history)"
    by (simp add: last_10_def)
  show "\<exists>older. history = older @ last_10 history"
    by (rule exI [of _ "take (length history - 10) history"]) (simp add: last_10_def)
  show "calls (fst (get_agent_contribution a topic history r w)) =
     (case mkdir_error w (round_dir r) of
        None \<Rightarrow> calls w @ [(party_agent_type a, build_context a topic (last_10 history))]
      | Some m \<Rightarrow> calls w)"
    using same by (simp add: calls_get_agent_contribution split: option.splits)
qed

section \<open>Party mode: the rounds\<close>

lemma round_robin_loop_returns:
  assumes "mkdir_error w (round_dir r) = None"
  shows "\<exists>w' cs. round_robin_loop agent_types topic history r contributions w =
             (w', Inr (history @ cs, contributions @ cs)) \<and>
           length cs = length agent_types \<and> mkdir_error w' = mkdir_error w"
  using assms
proof (induction agent_types arbitrary: history contributions w)
  case Nil
  then show ?case by simp
next
  case (Cons a rest)
  from get_agent_contribution_returns [OF Cons.prems, of a topic history]
  obtain w1 c where g: "get_agent_contribution a topic history r w = (w1, Inr c)"
    and m: "mkdir_error w1 = mkdir_error w"
    by blast
  have "mkdir_error w1 (round_dir r) = None"
    using Cons.prems by (simp add: m)
  from Cons.IH [OF this, of "history @ [c]" "contributions @ [c]"]
  obtain w' cs where l: "round_robin_loop rest topic (history @ [c]) r (contributions @ [c]) w1 =
        (w', Inr ((history @ [c]) @ cs, (contributions @ [c]) @ cs))"
    "length cs = length rest" "mkdir_error w' = mkdir_error w1"
    by blast
  show ?case
    by (rule exI [of _ w'], rule exI [of _ "c # cs"]) (simp add: g l m)
qed

lemma run_free_form_returns:
  assumes "mkdir_error w (round_dir r) = None"
  shows "\<exists>w' cs. run_free_form agent_types topic history r w = (w', Inr cs) \<and>
           length cs = length agent_types \<and> mkdir_error w' = mkdir_error w"
  using assms
proof (induction agent_types arbitrary: w)
  case Nil
  then show ?case by simp
next
  case (Cons a rest)
  from get_agent_contribution_returns [OF Cons.prems, of a topic history]
  obtain w1 c where g: "get_agent_contribution a topic history r w = (w1, Inr c)"
    and m: "mkdir_error w1 = mkdir_error w"
    by blast
  have "mkdir_error w1 (round_dir r) = None"
    using Cons.prems by (simp add: m)
  from Cons.IH [OF this]
  obtain w' cs where l: "run_free_form rest topic history r w1 = (w', Inr cs)"
    "length cs = length rest" "mkdir_error w' = mkdir_error w1"
    by blast
  show ?case
    by (rule exI [of _ w'], rule exI [of _ "c # cs"]) (simp add: g l m)
qed

text \<open>One round: it returns when its directory can be created, and raises otherwise.\<close>

lemma round_returns:
  assumes "mkdir_error w (round_dir r) = None"
  shows "\<exists>w' h'. run_rounds agent_types topic mode (r # rs) history w =
             run_rounds agent_types topic mode rs h' w' \<and>
           length h' = length history +
             (if mode = ''round-robin'' then 2 else 1) * length agent_types \<and>
           mkdir_error w' = mkdir_error w"
proof (cases "mode = ''round-robin''")
  case True
  from round_robin_loop_returns [OF assms, of agent_types topic history "[]"]
  obtain w' cs where l: "round_robin_loop agent_types topic history r [] w =
      (w', Inr (history @ cs, cs))" "length cs = length agent_types"
      "mkdir_error w' = mkdir_error w"
    by auto
  show ?thesis
    by (rule exI [of _ w'], rule exI [of _ "(history @ cs) @ cs"])
       (simp add: True run_round_robin_def l)
next
  case False
  from run_free_form_returns [OF assms, of agent_types topic history]
  obtain w' cs where l: "run_free_form agent_types topic history r w = (w', Inr cs)"
      "length cs = length agent_types" "mkdir_error w' = mkdir_error w"
    by blast
  show ?thesis
    by (rule exI [of _ w'], rule exI [of _ "history @ cs"]) (simp add: False l)
qed

lemma round_raises:
  assumes "mkdir_error w (round_dir r) = Some m" and "agent_types \<noteq> []"
  shows "run_rounds agent_types topic mode (r # rs) history w = (w, Inl (OSError m))"
proof -
  obtain a rest where ats: "agent_types = a # rest"
    using assms(2) by (cases agent_types) auto
  show ?thesis
    by (simp add: ats run_round_robin_def get_agent_contribution_raises [OF assms(1)])
qed

lemma no_roles: "run_rounds [] topic mode rs history w = (w, Inr history)"
  by (induction rs arbitrary: history w) (auto simp: run_round_robin_def)

lemma run_rounds_returns:
  assumes "agent_types = [] \<or> list_all (\<lambda>r. mkdir_error w (round_dir r) = None) rs"
  shows "\<exists>w' h'. run_rounds agent_types topic mode rs history w = (w', Inr h') \<and>
           length h' = length history +
             (if mode = ''round-robin'' then 2 else 1) * (length rs * length agent_types)"
proof (cases "agent_types = []")
  case True
  then show ?thesis by (simp add: no_roles)
next
  case False
  then have "list_all (\<lambda>r. mkdir_error w (round_dir r) = None) rs"
    using assms by simp
  then show ?thesis
  proof (induction rs arbitrary: history w)
    case Nil
    then show ?case by simp
  next
    case (Cons r rs)
    then have r: "mkdir_error w (round_dir r) = None"
      by simp
    from round_returns [OF r, of agent_types topic mode rs history]
    obtain w1 h1 where s: "run_rounds agent_types topic mode (r # rs) history w =
        run_rounds agent_types topic mode rs h1 w1"
      "length h1 = length history + (if mode = ''round-robin'' then 2 else 1) * length agent_types"
      "mkdir_error w1 = mkdir_error w"
      by blast
    have "list_all (\<lambda>r. mkdir_error w1 (round_dir r) = None) rs"
      using Cons.prems by (simp add: s(3))
    from Cons.IH [OF this, of h1]
    obtain w' h' where t: "run_rounds agent_types topic mode rs h1 w1 = (w', Inr h')"
      "length h' = length h1 +
         (if mode = ''round-robin'' then 2 else 1) * (length rs * length agent_types)"
      by blast
    have run: "run_rounds agent_types topic mode (r # rs) history w = (w', Inr h')"
      by (simp only: s(1) t(1))
    have len: "length h' = length history +
        (if mode = ''round-robin'' then 2 else 1) * (length (r # rs) * length agent_types)"
      by (simp add: s(2) t(2) algebra_simps)
    from run len show ?case
      by blast
  qed
qed

lemma run_rounds_raises:
  assumes "agent_types \<noteq> []"
    and "\<not> list_all (\<lambda>r. mkdir_error w (round_dir r) = None) rs"
  shows "\<exists>w' m. run_rounds agent_types topic mode rs history w = (w', Inl (OSError m))"
  using assms(2)
proof (induction rs arbitrary: history w)
  case Nil
  then show ?case by simp
next
  case (Cons r rs)
  show ?case
  proof (cases "mkdir_error w (round_dir r)")
    case (Some m)
    then show ?thesis
      using round_raises [OF Some assms(1)] by blast
  next
    case None
    from round_returns [OF None, of agent_types topic mode rs history]
    obtain w1 h1 where s: "run_rounds agent_types topic mode (r # rs) history w =
        run_rounds agent_types topic mode rs h1 w1" "mkdir_error w1 = mkdir_error w"
      by blast
    have "\<not> list_all (\<lambda>r. mkdir_error w1 (round_dir r) = None) rs"
      using Cons.prems None by (simp add: s(2))
    from Cons.IH [OF this, of h1]
    show ?thesis
      by (simp only: s(1))
  qed
qed

text \<open>
  The whole session: it raises exactly when there is a role and the directory of some
  round cannot be created, whatever the agent boundary does.
\<close>

lemma run_party_mode_returns:
  assumes "agent_types = [] \<or> list_all (\<lambda>r. mkdir_error w (round_dir r) = None) [1..rounds]"
  shows "\<exists>w' res. run_party_mode agent_types topic rounds mode w = (w', Inr res) \<and>
           pm_status res = ''success'' \<and>
           length (pm_discussion_history res) =
             (if mode = ''round-robin'' then 2 else 1) * (nat rounds * length agent_types)"
proof -
  from run_rounds_returns [OF assms, of topic mode "[]"]
  obtain w1 h where r: "run_rounds agent_types topic mode [1..rounds] [] w = (w1, Inr h)"
    "length h = (if mode = ''round-robin'' then 2 else 1) * (nat rounds * length agent_types)"
    by auto
  show ?thesis
    by (simp add: run_party_mode_def r case_prod_beta)
qed

lemma run_party_mode_raises:
  assumes "agent_types \<noteq> []"
    and "\<not> list_all (\<lambda>r. mkdir_error w (round_dir r) = None) [1..rounds]"
  shows "\<exists>w' m. run_party_mode agent_types topic rounds mode w = (w', Inl (OSError m))"
proof -
  from run_rounds_raises [OF assms, of topic mode "[]"]
  obtain w1 m where "run_rounds agent_types topic mode [1..rounds] [] w = (w1, Inl (OSError m))"
    by blast
  then show ?thesis
    by (simp add: run_party_mode_def)
qed

section \<open>Party mode: what each invocation is given\<close>

lemma one_round: "[1..1] = [1::int]"
  by (simp add: upto.simps)

lemma str_int_1: "str_int 1 = ''1''"
  by code_simp

lemma build_context_alone:
  "build_context x topic [] =
     ''Discussion Topic: '' @ topic @ newline @ newline @
     ''You are '' @ fst (persona x) @ '', the '' @ snd (persona x) @
     ''. Provide a brief, focused contribution (2-3 sentences) to this discussion from your perspective. Be specific and add value based on your expertise.''"
  by (simp add: build_context_def context_lines_def case_prod_beta)

lemma build_context_after:
  "ac_round_num c = 1 \<Longrightarrow>
   build_context x topic [c] =
     ''Discussion Topic: '' @ topic @ newline @ newline @
     ''Previous Discussion:'' @ newline @
     ''[Round 1] '' @ ac_agent_name c @ '' ('' @ ac_agent_type c @ ''): '' @ ac_content c @
     newline @ newline @
     ''You are '' @ fst (persona x) @ '', the '' @ snd (persona x) @
     ''. Provide a brief, focused contribution (2-3 sentences) to this discussion from your perspective. Be specific and add value based on your expertise.''"
  by (simp add: build_context_def context_lines_def case_prod_beta last_10_def
        render_contribution_def str_int_1)

lemma calls_synthesize_discussion:
  "\<exists>more. calls (fst (synthesize_discussion history w)) = calls w @ more"
  by (simp add: synthesize_discussion_def invoke_def Let_def
           split: option.splits prod.splits response.splits)

text \<open>
  C5. Roles \<open>[a, b]\<close>, one round, the directory of the round can be created. In
  round-robin mode the message sent for \<open>a\<close> is the topic and the instruction, and the
  message sent for \<open>b\<close> has between them the section \<open>Previous Discussion:\<close> with the
  line \<open>[Round 1] name (a): content\<close> of the contribution that \<open>a\<close> has just made,
  whose content is \<open>a\<close>'s stripped and capped reply (or the placeholder when the
  invocation raised). In free-form mode the messages sent for \<open>a\<close> and for \<open>b\<close> are
  both the topic and the instruction only: neither has a line of any contribution, and
  neither depends on what the agent boundary answers.
\<close>

theorem round_robin_sees_same_round_free_form_does_not:
  assumes "mkdir_error w (round_dir 1) = None"
  shows
    "let instruction = (\<lambda>x. ''You are '' @ fst (persona x) @ '', the '' @ snd (persona x) @
           ''. Provide a brief, focused contribution (2-3 sentences) to this discussion from your perspective. Be specific and add value based on your expertise.'');
         alone = (\<lambda>x. ''Discussion Topic: '' @ topic @ newline @ newline @ instruction x);
         after = (\<lambda>x c. ''Discussion Topic: '' @ topic @ newline @ newline @
                   ''Previous Discussion:'' @ newline @
                   ''[Round 1] '' @ ac_agent_name c @ '' ('' @ ac_agent_type c @ ''): '' @
                   ac_content c @ newline @ newline @ instruction x);
         said = (\<lambda>x msg.
                   case agent w (calls w @ [(party_agent_type x, msg)]) of
                     Returns st reply \<Rightarrow>
                       (if 500 < length (strip reply) then take 497 (strip reply) @ ''...''
                        else strip reply)
                   | Raises e \<Rightarrow>
                       fst (persona x) @ '' ('' @ snd (persona x) @
                       ''): Unable to contribute (error: '' @ e @ '')'')
     in (\<exists>w' res cA cB.
           run_party_mode [a, b] topic 1 ''round-robin'' w = (w', Inr res) \<and>
           take 2 (pm_discussion_history res) = [cA, cB] \<and>
           ac_agent_type cA = a \<and> ac_agent_name cA = fst (persona a) \<and>
           ac_round_num cA = 1 \<and> ac_content cA = said a (alone a) \<and>
           ac_agent_type cB = b \<and>
           take 2 (drop (length (calls w)) (calls w')) =
             [(party_agent_type a, alone a), (party_agent_type b, after b cA)]) \<and>
        (\<exists>w' res cA cB.
           run_party_mode [a, b] topic 1 ''free-form'' w = (w', Inr res) \<and>
           pm_discussion_history res = [cA, cB] \<and>
           ac_agent_type cA = a \<and> ac_agent_name cA = fst (persona a) \<and>
           ac_round_num cA = 1 \<and> ac_content cA = said a (alone a) \<and>
           ac_agent_type cB = b \<and>
           take 2 (drop (length (calls w)) (calls w')) =
             [(party_agent_type a, alone a), (party_agent_type b, alone b)])"
proof -
  from get_agent_contribution_returns [OF assms, of a topic "[]"]
  obtain w1 cA where a: "get_agent_contribution a topic [] 1 w = (w1, Inr cA)"
    "calls w1 = calls w @ [(party_agent_type a, build_context a topic [])]"
    "mkdir_error w1 = mkdir_error w"
    "ac_agent_type cA = a" "ac_agent_name cA = fst (persona a)" "ac_round_num cA = 1"
    "ac_content cA =
       (case agent w (calls w @ [(party_agent_type a, build_context a topic [])]) of
          Returns st reply \<Rightarrow>
            (if 500 < length (strip reply) then take 497 (strip reply) @ ''...''
             else strip reply)
        | Raises e \<Rightarrow>
            fst (persona a) @ '' ('' @ snd (persona a) @
            ''): Unable to contribute (error: '' @ e @ '')'')"
    by blast
  have ok1: "mkdir_error w1 (round_dir 1) = None"
    using assms by (simp add: a(3))
  from get_agent_contribution_returns [OF ok1, of b topic "[cA]"]
  obtain w2 cB where rr: "get_agent_contribution b topic [cA] 1 w1 = (w2, Inr cB)"
    "calls w2 = calls w1 @ [(party_agent_type b, build_context b topic [cA])]"
    "ac_agent_type cB = b"
    by blast
  from get_agent_contribution_returns [OF ok1, of b topic "[]"]
  obtain w2' cB' where ff: "get_agent_contribution b topic [] 1 w1 = (w2', Inr cB')"
    "calls w2' = calls w1 @ [(party_agent_type b, build_context b topic [])]"
    "ac_agent_type cB' = b"
    by blast
  obtain w3 syn where s: "synthesize_discussion [cA, cB, cA, cB] w2 = (w3, syn)"
    by (cases "synthesize_discussion [cA, cB, cA, cB] w2")
  obtain w3' syn' where s': "synthesize_discussion [cA, cB'] w2' = (w3', syn')"
    by (cases "synthesize_discussion [cA, cB'] w2'")
  from calls_synthesize_discussion [of "[cA, cB, cA, cB]" w2]
  obtain more where m: "calls w3 = calls w2 @ more"
    by (auto simp: s)
  from calls_synthesize_discussion [of "[cA, cB']" w2']
  obtain more' where m': "calls w3' = calls w2' @ more'"
    by (auto simp: s')
  have run_rr: "run_party_mode [a, b] topic 1 ''round-robin'' w =
      (w3, Inr \<lparr>pm_discussion_history = [cA, cB, cA, cB], pm_synthesis = syn,
                pm_status = ''success''\<rparr>)"
    by (simp add: run_party_mode_def one_round run_round_robin_def a(1) rr(1) s)
  have run_ff: "run_party_mode [a, b] topic 1 ''free-form'' w =
      (w3', Inr \<lparr>pm_discussion_history = [cA, cB'], pm_synthesis = syn',
                 pm_status = ''success''\<rparr>)"
    by (simp add: run_party_mode_def one_round a(1) ff(1) s')
  have calls_rr: "take 2 (drop (length (calls w)) (calls w3)) =
      [(party_agent_type a, build_context a topic []),
       (party_agent_type b, build_context b topic [cA])]"
    by (simp add: m rr(2) a(2))
  have calls_ff: "take 2 (drop (length (calls w)) (calls w3')) =
      [(party_agent_type a, build_context a topic []),
       (party_agent_type b, build_context b topic [])]"
    by (simp add: m' ff(2) a(2))
  have first: "\<exists>w' res cA cB.
           run_party_mode [a, b] topic 1 ''round-robin'' w = (w', Inr res) \<and>
           take 2 (pm_discussion_history res) = [cA, cB] \<and>
           ac_agent_type cA = a \<and> ac_agent_name cA = fst (persona a) \<and>
           ac_round_num cA = 1 \<and>
           ac_content cA =
             (case agent w (calls w @ [(party_agent_type a, build_context a topic [])]) of
                Returns st reply \<Rightarrow>
                  (if 500 < length (strip reply) then take 497 (strip reply) @ ''...''
                   else strip reply)
              | Raises e \<Rightarrow>
                  fst (persona a) @ '' ('' @ snd (persona a) @
                  ''): Unable to contribute (error: '' @ e @ '')'') \<and>
           ac_agent_type cB = b \<and>
           take 2 (drop (length (calls w)) (calls w')) =
             [(party_agent_type a, build_context a topic []),
              (party_agent_type b, build_context b topic [cA])]"
    using run_rr calls_rr a(4,5,6,7) rr(3)
    by (intro exI [of _ w3] exI [of _ cA] exI [of _ cB]
          exI [of _ "\<lparr>pm_discussion_history = [cA, cB, cA, cB], pm_synthesis = syn,
                     pm_status = ''success''\<rparr>"]) simp
  have second: "\<exists>w' res cA cB.
           run_party_mode [a, b] topic 1 ''free-form'' w = (w', Inr res) \<and>
           pm_discussion_history res = [cA, cB] \<and>
           ac_agent_type cA = a \<and> ac_agent_name cA = fst (persona a) \<and>
           ac_round_num cA = 1 \<and>
           ac_content cA =
             (case agent w (calls w @ [(party_agent_type a, build_context a topic [])]) of
                Returns st reply \<Rightarrow>
                  (if 500 < length (strip reply) then take 497 (strip reply) @ ''...''
                   else strip reply)
              | Raises e \<Rightarrow>
                  fst (persona a) @ '' ('' @ snd (persona a) @
                  ''): Unable to contribute (error: '' @ e @ '')'') \<and>
           ac_agent_type cB = b \<and>
           take 2 (drop (length (calls w)) (calls w')) =
             [(party_agent_type a, build_context a topic []),
              (party_agent_type b, build_context b topic [])]"
    using run_ff calls_ff a(4,5,6,7) ff(3)
    by (intro exI [of _ w3'] exI [of _ cA] exI [of _ cB']
          exI [of _ "\<lparr>pm_discussion_history = [cA, cB'], pm_synthesis = syn',
                     pm_status = ''success''\<rparr>"]) simp
  have after: "\<And>c. ac_round_num c = 1 \<Longrightarrow> build_context b topic [c] =
     ''Discussion Topic: '' @ topic @ newline @ newline @
     ''Previous Discussion:'' @ newline @
     ''[Round 1] '' @ ac_agent_name c @ '' ('' @ ac_agent_type c @ ''): '' @ ac_content c @
     newline @ newline @
     ''You are '' @ fst (persona b) @ '', the '' @ snd (persona b) @
     ''. Provide a brief, focused contribution (2-3 sentences) to this discussion from your perspective. Be specific and add value based on your expertise.''"
    by (rule build_context_after)
  show ?thesis
    unfolding Let_def build_context_alone [symmetric]
    using first second after
    by (metis (no_types, lifting))
qed

theorem round_robin_sees_same_round_free_form_does_not_witness:
  "mkdir_error party_world (round_dir 1) = None \<and>
   map snd (take 2 (calls (fst (run_party_mode [''pm'', ''dev''] ''Pricing'' 1 ''round-robin''
                                  party_world)))) =
     [''Discussion Topic: Pricing'' @ newline @ newline @
      ''You are John, the Product Manager. Provide a brief, focused contribution (2-3 sentences) to this discussion from your perspective. Be specific and add value based on your expertise.'',
      ''Discussion Topic: Pricing'' @ newline @ newline @
      ''Previous Discussion:'' @ newline @
      ''[Round 1] John (pm): We should ship it.'' @ newline @ newline @
      ''You are Amelia, the Developer. Provide a brief, focused contribution (2-3 sentences) to this discussion from your perspective. Be specific and add value based on your expertise.''] \<and>
   map snd (take 2 (calls (fst (run_party_mode [''pm'', ''dev''] ''Pricing'' 1 ''free-form''
                                  party_world)))) =
     [''Discussion Topic: Pricing'' @ newline @ newline @
      ''You are John, the Product Manager. Provide a brief, focused contribution (2-3 sentences) to this discussion from your perspective. Be specific and add value based on your expertise.'',
      ''Discussion Topic: Pricing'' @ newline @ newline @
      ''You are Amelia, the Developer. Provide a brief, focused contribution (2-3 sentences) to this discussion from your perspective. Be specific and add value based on your expertise.'']"
proof -
  have h: "mkdir_error party_world (round_dir 1) = None"
    by (simp add: party_world_def fresh_world_def)
  have c: "calls party_world = []"
    by (simp add: party_world_def fresh_world_def)
  have p: "persona ''pm'' = (''John'', ''Product Manager'')"
    "persona ''dev'' = (''Amelia'', ''Developer'')"
    by (simp_all add: persona_def AGENT_PERSONAS_def)
  have s: "strip ''  We should ship it.  '' = ''We should ship it.''"
    by code_simp
  have g: "agent party_world = always_complete"
    by (simp add: party_world_def)
  from round_robin_sees_same_round_free_form_does_not [OF h, of "''Pricing''" "''pm''" "''dev''"]
  show ?thesis
    using h by (auto simp: Let_def c p s g always_complete_def)
qed

section \<open>Party mode: the size of the discussion history\<close>

text \<open>In every mode but round-robin the history has one entry per role per round.\<close>

lemma free_form_history_length:
  assumes "mode \<noteq> ''round-robin''"
    and "list_all (\<lambda>r. mkdir_error w (round_dir r) = None) [1..rounds]"
  shows "\<exists>w' res. run_party_mode agent_types topic rounds mode w = (w', Inr res) \<and>
           length (pm_discussion_history res) = nat rounds * length agent_types"
  using run_party_mode_returns [of agent_types w rounds topic mode] assms by auto

text \<open>
  C6 on the code. In round-robin mode \<open>_run_round_robin\<close> appends each contribution to
  the caller's \<open>discussion_history\<close>, and \<open>run_party_mode\<close> then extends the same list
  with the round's outputs: whenever the session returns, the history has
  \<open>2 * rounds * len(agent_types)\<close> entries, each contribution twice. With the one role
  \<open>pm\<close> and one round it is \<open>[c, c]\<close>.
\<close>

theorem round_robin_history_has_each_contribution_twice:
  "map_sum (\<lambda>e. ()) (\<lambda>res. length (pm_discussion_history res))
     (snd (run_party_mode agent_types topic rounds ''round-robin'' w)) =
     (if agent_types \<noteq> [] \<and>
         \<not> list_all (\<lambda>r. mkdir_error w (round_dir r) = None) [1..rounds]
      then Inl () else Inr (2 * (nat rounds * length agent_types))) \<and>
   (case mkdir_error w (round_dir 1) of
      Some m \<Rightarrow> snd (run_party_mode [''pm''] topic 1 ''round-robin'' w) = Inl (OSError m)
    | None \<Rightarrow>
        (\<exists>c res. snd (get_agent_contribution ''pm'' topic [] 1 w) = Inr c \<and>
           snd (run_party_mode [''pm''] topic 1 ''round-robin'' w) = Inr res \<and>
           pm_discussion_history res = [c, c])) \<and>
   map_sum id pm_discussion_history
     (snd (run_party_mode [''pm''] ''Pricing'' 1 ''round-robin'' party_world)) =
     Inr [\<lparr>ac_agent_type = ''pm'', ac_agent_name = ''John'', ac_round_num = 1,
           ac_content = ''We should ship it.'', ac_timestamp = 0\<rparr>,
          \<lparr>ac_agent_type = ''pm'', ac_agent_name = ''John'', ac_round_num = 1,
           ac_content = ''We should ship it.'', ac_timestamp = 0\<rparr>]"
proof (intro conjI)
  show "map_sum (\<lambda>e. ()) (\<lambda>res. length (pm_discussion_history res))
     (snd (run_party_mode agent_types topic rounds ''round-robin'' w)) =
     (if agent_types \<noteq> [] \<and>
         \<not> list_all (\<lambda>r. mkdir_error w (round_dir r) = None) [1..rounds]
      then Inl () else Inr (2 * (nat rounds * length agent_types)))"
  proof (cases "agent_types \<noteq> [] \<and>
         \<not> list_all (\<lambda>r. mkdir_error w (round_dir r) = None) [1..rounds]")
    case True
    then obtain w' m where
      "run_party_mode agent_types topic rounds ''round-robin'' w = (w', Inl (OSError m))"
      using run_party_mode_raises [of agent_types w rounds topic "''round-robin''"] by blast
    then show ?thesis
      using True by simp
  next
    case False
    then obtain w' res where
      "run_party_mode agent_types topic rounds ''round-robin'' w = (w', Inr res)"
      "length (pm_discussion_history res) = 2 * (nat rounds * length agent_types)"
      using run_party_mode_returns [of agent_types w rounds topic "''round-robin''"] by auto
    then show ?thesis
      using False by simp
  qed
next
  show "case mkdir_error w (round_dir 1) of
      Some m \<Rightarrow> snd (run_party_mode [''pm''] topic 1 ''round-robin'' w) = Inl (OSError m)
    | None \<Rightarrow>
        (\<exists>c res. snd (get_agent_contribution ''pm'' topic [] 1 w) = Inr c \<and>
           snd (run_party_mode [''pm''] topic 1 ''round-robin'' w) = Inr res \<and>
           pm_discussion_history res = [c, c])"
  proof (cases "mkdir_error w (round_dir 1)")
    case None
    from get_agent_contribution_returns [OF None, of "''pm''" topic "[]"]
    obtain w1 c where g: "get_agent_contribution ''pm'' topic [] 1 w = (w1, Inr c)"
      by blast
    show ?thesis
      by (simp add: None run_party_mode_def one_round run_round_robin_def g case_prod_beta)
  next
    case (Some m)
    then show ?thesis
      by (simp add: run_party_mode_def one_round run_round_robin_def
            get_agent_contribution_raises)
  qed
next
  show "map_sum id pm_discussion_history
     (snd (run_party_mode [''pm''] ''Pricing'' 1 ''round-robin'' party_world)) =
     Inr [\<lparr>ac_agent_type = ''pm'', ac_agent_name = ''John'', ac_round_num = 1,
           ac_content = ''We should ship it.'', ac_timestamp = 0\<rparr>,
          \<lparr>ac_agent_type = ''pm'', ac_agent_name = ''John'', ac_round_num = 1,
           ac_content = ''We should ship it.'', ac_timestamp = 0\<rparr>]"
    by code_simp
qed

section \<open>Party mode: synthesis and status\<close>

lemma join_append:
  "xs \<noteq> [] \<Longrightarrow> ys \<noteq> [] \<Longrightarrow> join sep (xs @ ys) = join sep xs @ sep @ join sep ys"
proof (induction sep xs rule: join.induct)
  case (1 sep)
  then show ?case by simp
next
  case (2 sep x)
  then show ?case by (cases ys) simp_all
next
  case (3 sep x y ys')
  then show ?case by simp
qed

lemma synthesis_document_not_Nil: "synthesis_document history \<noteq> []"
  by (simp add: synthesis_document_def Let_def)

lemma join_basic_synthesis:
  "join newline (basic_synthesis e) =
     newline @ ''## Synthesis (Basic)'' @ newline @ newline @
     ''- Discussion captured above'' @ newline @
     ''- Unable to generate AI synthesis: '' @ e @ newline"
  by (simp add: basic_synthesis_def)

text \<open>
  C9. When the rounds have produced \<open>history\<close> and the synthesis invocation raises
  \<open>e\<close>, \<open>run_party_mode\<close> returns: the synthesis is the transcript followed by the fixed
  lines \<open>## Synthesis (Basic)\<close>, \<open>- Discussion captured above\<close> and
  \<open>- Unable to generate AI synthesis: e\<close>, and the status is \<open>success\<close>.
\<close>

theorem synthesis_falls_back_when_invocation_raises:
  assumes "run_rounds agent_types topic mode [1..rounds] [] w = (w1, Inr history)"
    and "mkdir_error w1 (party_mode_dir ''synthesis'') = None"
    and "invoke w1 ''planner'' (synthesis_prompt (synthesis_document history)) = (w2, Raises e)"
  shows "run_party_mode agent_types topic rounds mode w =
           (w2, Inr \<lparr>pm_discussion_history = history,
                     pm_synthesis =
                       join newline (synthesis_document history) @ newline @ newline @
                       ''## Synthesis (Basic)'' @ newline @ newline @
                       ''- Discussion captured above'' @ newline @
                       ''- Unable to generate AI synthesis: '' @ e @ newline,
                     pm_status = ''success''\<rparr>)"
proof -
  have "synthesize_discussion history w1 =
          (w2, join newline (synthesis_document history @ basic_synthesis e))"
    by (simp add: synthesize_discussion_def Let_def assms(2,3))
  moreover have "join newline (synthesis_document history @ basic_synthesis e) =
      join newline (synthesis_document history) @ newline @ join newline (basic_synthesis e)"
    by (rule join_append) (simp_all add: synthesis_document_not_Nil basic_synthesis_def)
  ultimately show ?thesis
    by (simp add: run_party_mode_def assms(1) join_basic_synthesis)
qed

theorem synthesis_falls_back_when_invocation_raises_witness:
  "snd (run_rounds [''pm'', ''dev''] ''Pricing'' ''free-form'' [1..1] [] fresh_world) =
     Inr [\<lparr>ac_agent_type = ''pm'', ac_agent_name = ''John'', ac_round_num = 1,
           ac_content = ''John (Product Manager): Unable to contribute (error: unavailable)'',
           ac_timestamp = 0\<rparr>,
          \<lparr>ac_agent_type = ''dev'', ac_agent_name = ''Amelia'', ac_round_num = 1,
           ac_content = ''Amelia (Developer): Unable to contribute (error: unavailable)'',
           ac_timestamp = 1\<rparr>] \<and>
   map_sum id pm_status
     (snd (run_party_mode [''pm'', ''dev''] ''Pricing'' 1 ''free-form'' fresh_world)) =
     Inr ''success'' \<and>
   map_sum id pm_synthesis
     (snd (run_party_mode [''pm'', ''dev''] ''Pricing'' 1 ''free-form'' fresh_world)) =
     Inr (''# Multi-Agent Discussion Synthesis'' @ newline @ newline @
          ''## Round 1'' @ newline @ newline @
          ''**John (pm):** John (Product Manager): Unable to contribute (error: unavailable)'' @
          newline @ newline @
          ''**Amelia (dev):** Amelia (Developer): Unable to contribute (error: unavailable)'' @
          newline @ newline @ newline @
          ''## Synthesis (Basic)'' @ newline @ newline @
          ''- Discussion captured above'' @ newline @
          ''- Unable to generate AI synthesis: unavailable'' @ newline)"
proof -
  let ?R = "run_rounds [''pm'', ''dev''] ''Pricing'' ''free-form'' [1..1] [] fresh_world"
  let ?h = "[\<lparr>ac_agent_type = ''pm'', ac_agent_name = ''John'', ac_round_num = 1,
           ac_content = ''John (Product Manager): Unable to contribute (error: unavailable)'',
           ac_timestamp = 0\<rparr>,
          \<lparr>ac_agent_type = ''dev'', ac_agent_name = ''Amelia'', ac_round_num = 1,
           ac_content = ''Amelia (Developer): Unable to contribute (error: unavailable)'',
           ac_timestamp = 1\<rparr>]"
  let ?I = "invoke (fst ?R) ''planner'' (synthesis_prompt (synthesis_document ?h))"
  have h: "snd ?R = Inr ?h"
    by code_simp
  then have a: "?R = (fst ?R, Inr ?h)"
    by (simp add: prod_eq_iff)
  have m: "mkdir_error (fst ?R) (party_mode_dir ''synthesis'') = None"
    by code_simp
  have "snd ?I = Raises ''unavailable''"
    by code_simp
  then have b: "?I = (fst ?I, Raises ''unavailable'')"
    by (simp add: prod_eq_iff)
  have d: "join newline (synthesis_document ?h) =
          ''# Multi-Agent Discussion Synthesis'' @ newline @ newline @
          ''## Round 1'' @ newline @ newline @
          ''**John (pm):** John (Product Manager): Unable to contribute (error: unavailable)'' @
          newline @ newline @
          ''**Amelia (dev):** Amelia (Developer): Unable to contribute (error: unavailable)'' @
          newline"
    by code_simp
  note run = synthesis_falls_back_when_invocation_raises [OF a m b]
  have st: "map_sum id pm_status
     (snd (run_party_mode [''pm'', ''dev''] ''Pricing'' 1 ''free-form'' fresh_world)) =
     Inr ''success''"
    unfolding run by simp
  have "map_sum id pm_synthesis
     (snd (run_party_mode [''pm'', ''dev''] ''Pricing'' 1 ''free-form'' fresh_world)) =
     Inr (join newline (synthesis_document ?h) @ newline @ newline @
          ''## Synthesis (Basic)'' @ newline @ newline @
          ''- Discussion captured above'' @ newline @
          ''- Unable to generate AI synthesis: unavailable'' @ newline)"
    unfolding run by simp
  then have sy: "map_sum id pm_synthesis
     (snd (run_party_mode [''pm'', ''dev''] ''Pricing'' 1 ''free-form'' fresh_world)) =
     Inr (''# Multi-Agent Discussion Synthesis'' @ newline @ newline @
          ''## Round 1'' @ newline @ newline @
          ''**John (pm):** John (Product Manager): Unable to contribute (error: unavailable)'' @
          newline @ newline @
          ''**Amelia (dev):** Amelia (Developer): Unable to contribute (error: unavailable)'' @
          newline @ newline @ newline @
          ''## Synthesis (Basic)'' @ newline @ newline @
          ''- Discussion captured above'' @ newline @
          ''- Unable to generate AI synthesis: unavailable'' @ newline)"
    by (simp only: d append_assoc)
  show ?thesis
    by (rule conjI [OF h conjI [OF st sy]])
qed

text \<open>
  C10 on the code. Every result that \<open>run_party_mode\<close> returns has the status
  \<open>success\<close>, whatever the agent boundary does, but it does not return for every input:
  \<open>_get_agent_contribution\<close> creates the directory of the round before its \<open>try\<close>, so
  with at least one role, the session raises exactly when the directory of some round
  cannot be created. With the role \<open>pm\<close> and one round on a file system that refuses
  the directory, the \<open>OSError\<close> leaves \<open>run_party_mode\<close> and there is no result.
\<close>

theorem party_mode_raises_when_round_directory_cannot_be_created:
  "map_sum (\<lambda>e. ()) pm_status (snd (run_party_mode agent_types topic rounds mode w)) =
     (if agent_types \<noteq> [] \<and>
         \<not> list_all (\<lambda>r. mkdir_error w (round_dir r) = None) [1..rounds]
      then Inl () else Inr ''success'') \<and>
   run_party_mode [''pm''] ''Pricing'' 1 ''round-robin'' read_only_world =
     (read_only_world, Inl (OSError ''Permission denied''))"
proof
  show "map_sum (\<lambda>e. ()) pm_status (snd (run_party_mode agent_types topic rounds mode w)) =
     (if agent_types \<noteq> [] \<and>
         \<not> list_all (\<lambda>r. mkdir_error w (round_dir r) = None) [1..rounds]
      then Inl () else Inr ''success'')"
  proof (cases "agent_types \<noteq> [] \<and>
         \<not> list_all (\<lambda>r. mkdir_error w (round_dir r) = None) [1..rounds]")
    case True
    then obtain w' m where
      "run_party_mode agent_types topic rounds mode w = (w', Inl (OSError m))"
      using run_party_mode_raises [of agent_types w rounds topic mode] by blast
    then show ?thesis
      using True by simp
  next
    case False
    then obtain w' res where
      "run_party_mode agent_types topic rounds mode w = (w', Inr res)"
      "pm_status res = ''success''"
      using run_party_mode_returns [of agent_types w rounds topic mode] by auto
    then show ?thesis
      using False by simp
  qed
next
  have "mkdir_error read_only_world (round_dir 1) = Some ''Permission denied''"
    by (simp add: read_only_world_def)
  then show "run_party_mode [''pm''] ''Pricing'' 1 ''round-robin'' read_only_world =
     (read_only_world, Inl (OSError ''Permission denied''))"
    by (simp add: run_party_mode_def one_round run_round_robin_def
          get_agent_contribution_raises)
qed

end
